theory Spec2Isabelle
  imports Complex_Main
begin

section \<open>JavaScript values used by the credential lifecycle\<close>

text \<open>
  A JavaScript string that may be \<^verbatim>\<open>undefined\<close> or \<^verbatim>\<open>null\<close> is a \<open>string option\<close>.
  The conditions \<^verbatim>\<open>if (x)\<close>, \<^verbatim>\<open>!x\<close> and \<^verbatim>\<open>x || y\<close> of the source test truthiness:
  a missing value and the empty string are both falsy.
\<close>

fun truthy :: "string option \<Rightarrow> bool" where
  "truthy None = False"
| "truthy (Some s) = (s \<noteq> [])"

definition orElse :: "string option \<Rightarrow> string option \<Rightarrow> string option" where
  "orElse a b = (if truthy a then a else b)"

text \<open>\<^verbatim>\<open>x || d\<close> where \<open>d\<close> is a string that is always there.\<close>

fun orDefault :: "string option \<Rightarrow> string \<Rightarrow> string" where
  "orDefault None d = d"
| "orDefault (Some s) d = (if s \<noteq> [] then s else d)"

text \<open>
  Thrown values. \<open>Error m\<close> is \<^verbatim>\<open>new Error(m)\<close>. \<open>AxiosError st descr apimsg m\<close> is the
  rejection of an axios call: \<open>st\<close> is \<^verbatim>\<open>error.response?.status\<close> (absent on a network
  failure or timeout), \<open>descr\<close> is \<^verbatim>\<open>error.response?.data?.error_description\<close>, \<open>apimsg\<close> is
  \<^verbatim>\<open>error.response?.data?.errors?.[0]?.message\<close> and \<open>m\<close> is \<^verbatim>\<open>error.message\<close>.
\<close>

datatype jsError =
    Error string
  | AxiosError "nat option" "string option" "string option" string

fun errStatus :: "jsError \<Rightarrow> nat option" where
  "errStatus (Error m) = None"
| "errStatus (AxiosError st descr apimsg m) = st"

fun errDescription :: "jsError \<Rightarrow> string option" where
  "errDescription (Error m) = None"
| "errDescription (AxiosError st descr apimsg m) = descr"

fun errApiMessage :: "jsError \<Rightarrow> string option" where
  "errApiMessage (Error m) = None"
| "errApiMessage (AxiosError st descr apimsg m) = apimsg"

fun errMessage :: "jsError \<Rightarrow> string" where
  "errMessage (Error m) = m"
| "errMessage (AxiosError st descr apimsg m) = m"

text \<open>The text a template literal inserts for a possibly missing string.\<close>

fun jsText :: "string option \<Rightarrow> string" where
  "jsText None = ''undefined''"
| "jsText (Some s) = s"

section \<open>Configuration (services/amazonSpApi.js)\<close>

record config =
  clientId :: "string option"
  clientSecret :: "string option"
  redirectUri :: "string option"
  region :: string
  sandbox :: bool
  applicationId :: "string option"

fun joinWith :: "string \<Rightarrow> string list \<Rightarrow> string" where
  "joinWith sep [] = []"
| "joinWith sep [x] = x"
| "joinWith sep (x # y # ys) = x @ sep @ joinWith sep (y # ys)"

definition validateConfig :: "config \<Rightarrow> jsError + unit" where
  "validateConfig c =
     (let required = [(''clientId'', clientId c), (''clientSecret'', clientSecret c),
                      (''redirectUri'', redirectUri c), (''applicationId'', applicationId c)];
          missing = map fst (filter (\<lambda>kv. \<not> truthy (snd kv)) required)
      in if length missing > 0
         then Inl (Error (''Missing required Amazon SP API configuration: '' @ joinWith '', '' missing))
         else Inr ())"

definition toLowerCase :: "string \<Rightarrow> string" where
  "toLowerCase s =
     map (\<lambda>c. if (65::nat) \<le> of_char c \<and> of_char c \<le> (90::nat)
              then char_of (of_char c + (32::nat)) else c) s"

definition getBaseUrl :: "config \<Rightarrow> jsError + string" where
  "getBaseUrl c =
     (let region = toLowerCase (region c) in
      if region = ''na'' then
        Inr (if sandbox c then ''https://sandbox.sellingpartnerapi-na.amazon.com''
             else ''https://sellingpartnerapi-na.amazon.com'')
      else if region = ''eu'' then
        Inr (if sandbox c then ''https://sandbox.sellingpartnerapi-eu.amazon.com''
             else ''https://sellingpartnerapi-eu.amazon.com'')
      else if region = ''fe'' then
        Inr (if sandbox c then ''https://sandbox.sellingpartnerapi-fe.amazon.com''
             else ''https://sellingpartnerapi-fe.amazon.com'')
      else Inl (Error (''Invalid region: '' @ region @ ''. Must be one of: na, eu, fe'')))"

definition getMarketplaceId :: "config \<Rightarrow> string" where
  "getMarketplaceId c =
     (let region = toLowerCase (region c) in
      if region = ''na'' then ''ATVPDKIKX0DER''
      else if region = ''eu'' then ''A21TJRUUN4KGV''
      else if region = ''fe'' then ''A1VC38T7YXB528''
      else ''A21TJRUUN4KGV'')"

section \<open>Credential record (models/User.js) and token bundle\<close>

text \<open>
  Times are milliseconds since the epoch. A \<^verbatim>\<open>Date\<close> field that is missing or invalid is
  \<open>None\<close>: its \<^verbatim>\<open>getTime()\<close> is \<^verbatim>\<open>NaN\<close>, and every comparison with it is false.
\<close>

record amazon_auth =
  accessToken :: "string option"
  refreshToken :: "string option"
  tokenExpiresAt :: "int option"
  sellerId :: "string option"
  connectedAt :: "int option"

record user =
  userKey :: string
  amazonAuth :: "amazon_auth option"

record tokenData =
  access_token :: "string option"
  refresh_token :: "string option"
  expires_in :: "int option"
  selling_partner_id :: "string option"
  seller_id :: "string option"

record tokenRequest =
  grant_type :: string
  code_param :: "string option"
  refresh_token_param :: "string option"
  client_id :: "string option"
  client_secret :: "string option"
  redirect_uri :: "string option"

section \<open>Order records and Selling Partner API messages\<close>

record orderTotal =
  CurrencyCode :: "string option"
  Amount :: "string option"

record rawOrder =
  AmazonOrderId :: "string option"
  PurchaseDate :: "string option"
  OrderStatus :: "string option"
  OrderTotal :: "orderTotal option"

text \<open>
  The payload of the order-listing endpoint. Every place of the source that reads
  \<^verbatim>\<open>payload.Orders\<close> treats a missing array as the empty one
  (\<^verbatim>\<open>!payload?.Orders?.length\<close>, \<^verbatim>\<open>payload?.Orders || []\<close>), so the field is a list.
\<close>

record payload =
  Orders :: "rawOrder list"
  NextToken :: "string option"

text \<open>
  The calendar date of an order record. \<open>Text s\<close> is the string \<open>s\<close> as it is.
  \<open>IsoDay d\<close> stands for the text \<^verbatim>\<open>YYYY-MM-DD\<close> that \<^verbatim>\<open>toISOString().split("T")[0]\<close>
  gives for an instant of UTC day \<open>d\<close> (days since the epoch); \<^verbatim>\<open>new Date\<close> of that text is
  midnight UTC of day \<open>d\<close>.
\<close>

datatype dateText = Text string | IsoDay int

record orderRecord =
  orderId :: "string option"
  orderDate :: dateText
  status :: string
  amount :: string

record spHeaders =
  Authorization :: string
  xAmzAccessToken :: "string option"
  ContentType :: string

record ordersParams =
  MarketplaceIds :: string
  CreatedAfter :: int
  CreatedBefore :: "int option"
  MaxResultsPerPage :: "nat option"
  NextTokenParam :: "string option"

section \<open>The world outside the process\<close>

text \<open>\<^verbatim>\<open>Math.random()\<close> returns a number that is at least 0 and less than 1.\<close>

typedef unit_draw = "{r :: real. 0 \<le> r \<and> r < 1}"
  by (rule exI [of _ 0]) simp

setup_lifting type_definition_unit_draw

lift_definition draw_value :: "unit_draw \<Rightarrow> real" is "\<lambda>r. r" .

text \<open>The draw \<open>(n mod d) / d\<close>, to write a random source down.\<close>

lift_definition draw_of :: "nat \<Rightarrow> nat \<Rightarrow> unit_draw"
  is "\<lambda>n d. if d = 0 then 0 else real (n mod d) / real d"
  by simp

text \<open>
  Everything the code reads from outside: the deployment configuration, the clock, the
  token endpoint, the persistence of the user document, the three Selling Partner
  endpoints, the random source and the two number renderings of the platform.
  \<open>ordersEndpoint w n\<close> answers the request that follows \<open>n\<close> earlier requests to the
  order-listing endpoint within one call, so an upstream may answer the same request
  differently every time. \<open>Inl\<close> is a rejected axios promise. \<open>now\<close> is the clock when
  a call starts, \<open>received\<close> the clock when the token endpoint has answered.
  \<open>localTZA t isUTC\<close> is the offset of the server's time zone in milliseconds
  (ECMAScript's \<^verbatim>\<open>LocalTZA\<close>): at the instant \<open>t\<close> when \<open>isUTC\<close> holds, otherwise at the local
  time \<open>t\<close>. \<open>toString36\<close> and \<open>toFixed2\<close> are \<^verbatim>\<open>Number.prototype.toString(36)\<close> and
  \<^verbatim>\<open>toFixed(2)\<close>.
\<close>

record world =
  config :: config
  now :: int
  received :: int
  localTZA :: "int \<Rightarrow> bool \<Rightarrow> int"
  tokenEndpoint :: "tokenRequest \<Rightarrow> jsError + tokenData"
  saveUser :: "user \<Rightarrow> jsError option"
  ordersEndpoint :: "nat \<Rightarrow> string \<Rightarrow> spHeaders \<Rightarrow> ordersParams \<Rightarrow> jsError + payload option"
  rdtEndpoint :: "string \<Rightarrow> spHeaders \<Rightarrow> jsError + string option"
  participationsEndpoint :: "string \<Rightarrow> spHeaders \<Rightarrow> jsError + string list option"
  random :: "nat \<Rightarrow> unit_draw"
  toString36 :: "real \<Rightarrow> string"
  toFixed2 :: "real \<Rightarrow> string"

section \<open>Token lifecycle\<close>

text \<open>\<^verbatim>\<open>refreshAccessToken\<close> of services/amazonSpApi.js: one form-encoded POST, any failure rethrown.\<close>

definition refreshAccessToken :: "world \<Rightarrow> string option \<Rightarrow> jsError + tokenData" where
  "refreshAccessToken w rt =
     (case (case validateConfig (config w) of
              Inl e \<Rightarrow> Inl e
            | Inr u \<Rightarrow>
                if \<not> truthy rt then Inl (Error ''Refresh token is required'')
                else tokenEndpoint w
                       \<lparr>grant_type = ''refresh_token'', code_param = None,
                        refresh_token_param = rt, client_id = clientId (config w),
                        client_secret = clientSecret (config w), redirect_uri = None\<rparr>)
      of Inl error \<Rightarrow>
           Inl (Error (''Failed to refresh access token: '' @
                  orDefault (errDescription error) (errMessage error)))
       | Inr data \<Rightarrow> Inr data)"

definition bufferTime :: int where
  "bufferTime = 5 * 60 * 1000"

text \<open>\<^verbatim>\<open>now.getTime() > expiryTime.getTime() - bufferTime\<close>\<close>

fun expiring :: "int \<Rightarrow> int option \<Rightarrow> bool" where
  "expiring t None = False"
| "expiring t (Some expiryTime) = (t > expiryTime - bufferTime)"

text \<open>\<^verbatim>\<open>new Date(Date.now() + tokenData.expires_in * 1000)\<close>\<close>

fun expiryFrom :: "int \<Rightarrow> int option \<Rightarrow> int option" where
  "expiryFrom t None = None"
| "expiryFrom t (Some secs) = Some (t + secs * 1000)"

text \<open>Lines 36 to 42 of routes/amazon.js: the in-place update of the credential.\<close>

definition applyTokenData :: "world \<Rightarrow> amazon_auth \<Rightarrow> tokenData \<Rightarrow> amazon_auth" where
  "applyTokenData w auth td =
     (let auth1 = auth\<lparr>accessToken := access_token td,
                       tokenExpiresAt := expiryFrom (received w) (expires_in td)\<rparr>
      in if truthy (refresh_token td) then auth1\<lparr>refreshToken := refresh_token td\<rparr> else auth1)"

text \<open>
  What one call of \<^verbatim>\<open>ensureValidAccessToken\<close> does: the value returned or thrown, the user
  document as the caller holds it afterwards, the arguments of every call of
  \<^verbatim>\<open>refreshAccessToken\<close> and the documents handed to \<^verbatim>\<open>user.save()\<close>.
\<close>

record ensureOutcome =
  returned :: "jsError + string option"
  userAfter :: user
  refreshCalls :: "string option list"
  saveCalls :: "user list"

definition notConnected :: jsError where
  "notConnected = Error ''Amazon account not connected''"

definition ensureValidAccessToken :: "world \<Rightarrow> user \<Rightarrow> ensureOutcome" where
  "ensureValidAccessToken w user =
     (case amazonAuth user of
        None \<Rightarrow> \<lparr>returned = Inl notConnected, userAfter = user, refreshCalls = [], saveCalls = []\<rparr>
      | Some auth \<Rightarrow>
          if \<not> truthy (accessToken auth) then
            \<lparr>returned = Inl notConnected, userAfter = user, refreshCalls = [], saveCalls = []\<rparr>
          else if expiring (now w) (tokenExpiresAt auth) then
            (if \<not> truthy (refreshToken auth) then
               \<lparr>returned = Inl (Error ''No refresh token available. Please reconnect your Amazon account.''),
                userAfter = user, refreshCalls = [], saveCalls = []\<rparr>
             else
               (case refreshAccessToken w (refreshToken auth) of
                  Inl e \<Rightarrow>
                    \<lparr>returned = Inl e, userAfter = user,
                     refreshCalls = [refreshToken auth], saveCalls = []\<rparr>
                | Inr tokenData \<Rightarrow>
                    (let user' = user\<lparr>amazonAuth := Some (applyTokenData w auth tokenData)\<rparr>
                     in case saveUser w user' of
                          Some e \<Rightarrow>
                            \<lparr>returned = Inl e, userAfter = user',
                             refreshCalls = [refreshToken auth], saveCalls = [user']\<rparr>
                        | None \<Rightarrow>
                            \<lparr>returned = Inr (accessToken (applyTokenData w auth tokenData)),
                             userAfter = user',
                             refreshCalls = [refreshToken auth], saveCalls = [user']\<rparr>)))
          else
            \<lparr>returned = Inr (accessToken auth), userAfter = user,
             refreshCalls = [], saveCalls = []\<rparr>)"

section \<open>Order retrieval (getRecentOrders, getOrderCount and their helpers)\<close>

definition msPerDay :: int where
  "msPerDay = 24 * 60 * 60 * 1000"

text \<open>ECMAScript's \<^verbatim>\<open>LocalTime(t)\<close> and \<^verbatim>\<open>UTC(t)\<close>.\<close>

definition localTime :: "world \<Rightarrow> int \<Rightarrow> int" where
  "localTime w t = t + localTZA w t True"

definition utcOf :: "world \<Rightarrow> int \<Rightarrow> int" where
  "utcOf w t = t - localTZA w t False"

text \<open>
  \<^verbatim>\<open>const d = new Date(); d.setDate(d.getDate() - j)\<close>: \<^verbatim>\<open>getDate\<close> and \<^verbatim>\<open>setDate\<close> work on the
  local calendar. The local time of the clock is moved \<open>j\<close> calendar days back, the time
  of day kept (\<^verbatim>\<open>MakeDay\<close> counts days, also past the start of the month), and the result
  is read as a local time again.
\<close>

definition daysBack :: "world \<Rightarrow> nat \<Rightarrow> int" where
  "daysBack w j = utcOf w (localTime w (now w) - int j * msPerDay)"

definition bearerHeaders :: "string option \<Rightarrow> string option \<Rightarrow> spHeaders" where
  "bearerHeaders token xtoken =
     \<lparr>Authorization = ''Bearer '' @ jsText token, xAmzAccessToken = xtoken,
      ContentType = ''application/json''\<rparr>"

text \<open>
  \<^verbatim>\<open>checkOrdersApiAccess\<close>: one request for a single order of the last 24 hours; any
  failure, also of \<^verbatim>\<open>getBaseUrl()\<close>, is caught and answered \<^verbatim>\<open>false\<close>.
\<close>

definition accessCheckParams :: "world \<Rightarrow> ordersParams" where
  "accessCheckParams w =
     \<lparr>MarketplaceIds = getMarketplaceId (config w),
      CreatedAfter = now w - 24 * 60 * 60 * 1000, CreatedBefore = None,
      MaxResultsPerPage = Some 1, NextTokenParam = None\<rparr>"

definition checkOrdersApiAccess :: "world \<Rightarrow> string option \<Rightarrow> bool" where
  "checkOrdersApiAccess w token =
     (case getBaseUrl (config w) of
        Inl e \<Rightarrow> False
      | Inr base \<Rightarrow>
          (case ordersEndpoint w 0 (base @ ''/orders/v0/orders'')
                  (bearerHeaders token token) (accessCheckParams w)
           of Inl e \<Rightarrow> False
            | Inr response \<Rightarrow> True))"

text \<open>The body of the \<^verbatim>\<open>try\<close> block of \<^verbatim>\<open>getRestrictedDataToken\<close>.\<close>

definition requestRestrictedDataToken :: "world \<Rightarrow> string option \<Rightarrow> jsError + string option" where
  "requestRestrictedDataToken w token =
     (if \<not> truthy token then Inl (Error ''Access token is required'')
      else
        (case getBaseUrl (config w) of
           Inl e \<Rightarrow> Inl e
         | Inr baseUrl \<Rightarrow>
             rdtEndpoint w (baseUrl @ ''/tokens/2021-03-01/restrictedDataToken'')
               (bearerHeaders token token)))"

text \<open>The \<^verbatim>\<open>catch\<close> block logs and returns \<^verbatim>\<open>null\<close>.\<close>

definition getRestrictedDataToken :: "world \<Rightarrow> string option \<Rightarrow> string option" where
  "getRestrictedDataToken w token =
     (case requestRestrictedDataToken w token of
        Inl error \<Rightarrow> None
      | Inr restrictedDataToken \<Rightarrow> restrictedDataToken)"

record sellerProfile =
  marketplaces :: nat
  hasAccess :: bool

definition getSellerProfile :: "world \<Rightarrow> string option \<Rightarrow> sellerProfile" where
  "getSellerProfile w token =
     (case getBaseUrl (config w) of
        Inl e \<Rightarrow> \<lparr>marketplaces = 0, hasAccess = False\<rparr>
      | Inr base \<Rightarrow>
          (case participationsEndpoint w (base @ ''/sellers/v1/marketplaceParticipations'')
                  (bearerHeaders token token)
           of Inl e \<Rightarrow> \<lparr>marketplaces = 0, hasAccess = False\<rparr>
            | Inr response \<Rightarrow>
                \<lparr>marketplaces = length (case response of None \<Rightarrow> [] | Some ms \<Rightarrow> ms),
                 hasAccess = True\<rparr>))"

subsection \<open>Synthetic orders\<close>

definition statuses :: "string list" where
  "statuses = [''Shipped'', ''Pending'', ''Delivered'', ''Cancelled'']"

definition toUpperCase :: "string \<Rightarrow> string" where
  "toUpperCase s =
     map (\<lambda>c. if (97::nat) \<le> of_char c \<and> of_char c \<le> (122::nat)
              then char_of (of_char c - (32::nat)) else c) s"

text \<open>\<^verbatim>\<open>Math.floor(Math.random() * n)\<close> for the draw \<open>d\<close>.\<close>

definition floorTimes :: "unit_draw \<Rightarrow> nat \<Rightarrow> nat" where
  "floorTimes d n = nat \<lfloor>draw_value d * real n\<rfloor>"

text \<open>
  One pass of the loop body of \<^verbatim>\<open>generateMockOrderData\<close>, reading the draws \<open>k + 1\<close> to
  \<open>k + 4\<close> of the random source in the order of the source text (day offset, identifier,
  status, amount). The date is printed by \<^verbatim>\<open>toISOString\<close>, that is as the UTC day of the
  instant.
\<close>

definition mockOrder :: "world \<Rightarrow> nat \<Rightarrow> orderRecord" where
  "mockOrder w k =
     (let date = daysBack w (floorTimes (random w (k + 1)) 30) in
      \<lparr>orderId = Some (''TEST-'' @ toUpperCase
                   (take 9 (drop 2 (toString36 w (draw_value (random w (k + 2))))))),
       orderDate = IsoDay (date div msPerDay),
       status = statuses ! floorTimes (random w (k + 3)) (length statuses),
       amount = ''INR '' @ toFixed2 w (draw_value (random w (k + 4)) * 5000 + 100)\<rparr>)"

text \<open>
  \<^verbatim>\<open>for (let i = 0; i < Math.floor(Math.random() * 20) + 5; i++)\<close>: the bound is drawn anew
  at every test of the condition (draw \<open>k\<close>).
\<close>

function mockLoop :: "world \<Rightarrow> nat \<Rightarrow> nat \<Rightarrow> orderRecord list \<Rightarrow> orderRecord list" where
  "mockLoop w i k mockOrders =
     (if i < floorTimes (random w k) 20 + 5
      then mockLoop w (i + 1) (k + 5) (mockOrders @ [mockOrder w k])
      else mockOrders)"
  by pat_completeness auto
termination
proof (relation "measure (\<lambda>(w, i, k, mockOrders). 24 - i)")
  show "wf (measure (\<lambda>(w, i, k, mockOrders). 24 - i))"
    by simp
next
  fix w :: world and i k :: nat and mockOrders :: "orderRecord list"
  assume a: "i < floorTimes (random w k) 20 + 5"
  have "draw_value d < 1" for d
    by transfer simp
  then have "draw_value (random w k) * 20 < 20"
    by simp
  then have "\<lfloor>draw_value (random w k) * 20\<rfloor> < 20"
    by (simp add: floor_less_iff)
  then have "nat \<lfloor>draw_value (random w k) * 20\<rfloor> < 20"
    by linarith
  then have "floorTimes (random w k) 20 < 20"
    by (simp add: floorTimes_def)
  with a show "((w, i + 1, k + 5, mockOrders @ [mockOrder w k]), (w, i, k, mockOrders))
      \<in> measure (\<lambda>(w, i, k, mockOrders). 24 - i)"
    by simp
qed

declare mockLoop.simps [simp del]

text \<open>\<^verbatim>\<open>new Date(orderDate)\<close> in milliseconds, for the dates the generator writes.\<close>

fun newDate :: "dateText \<Rightarrow> int" where
  "newDate (IsoDay d) = d * msPerDay"

text \<open>
  \<^verbatim>\<open>mockOrders.sort((a, b) => new Date(b.orderDate) - new Date(a.orderDate))\<close>: a stable
  sort by falling date.
\<close>

definition generateMockOrderData :: "world \<Rightarrow> orderRecord list" where
  "generateMockOrderData w =
     sort_key (\<lambda>order. - newDate (orderDate order)) (mockLoop w 0 0 [])"

subsection \<open>Paging\<close>

fun responseOrders :: "payload option \<Rightarrow> rawOrder list" where
  "responseOrders None = []"
| "responseOrders (Some payload) = Orders payload"

text \<open>\<^verbatim>\<open>payload.NextToken || null\<close>\<close>

fun responseNextToken :: "payload option \<Rightarrow> string option" where
  "responseNextToken None = None"
| "responseNextToken (Some payload) = orElse (NextToken payload) None"

definition pageParams :: "world \<Rightarrow> string option \<Rightarrow> ordersParams" where
  "pageParams w nextToken =
     \<lparr>MarketplaceIds = getMarketplaceId (config w),
      CreatedAfter = daysBack w 30, CreatedBefore = Some (now w),
      MaxResultsPerPage = Some 50,
      NextTokenParam = (if truthy nextToken then nextToken else None)\<rparr>"

text \<open>
  The \<^verbatim>\<open>do ... while (nextToken && allOrders.length < 200)\<close> loop of \<^verbatim>\<open>getRecentOrders\<close>.
  \<open>n\<close> counts the requests already sent to the order-listing endpoint; the result pairs
  the accumulated orders (or the rejection that left the loop) with that count.
\<close>

function ordersLoop ::
  "world \<Rightarrow> string option \<Rightarrow> string option \<Rightarrow> nat \<Rightarrow> rawOrder list \<Rightarrow> string option
     \<Rightarrow> (jsError + rawOrder list) \<times> nat" where
  "ordersLoop w token restrictedToken n allOrders nextToken =
     (case getBaseUrl (config w) of
        Inl e \<Rightarrow> (Inl e, n)
      | Inr base \<Rightarrow>
          (case ordersEndpoint w n (base @ ''/orders/v0/orders'')
                  (bearerHeaders token (orElse restrictedToken token))
                  (pageParams w nextToken)
           of Inl e \<Rightarrow> (Inl e, Suc n)
            | Inr response \<Rightarrow>
                if responseOrders response = [] then (Inr allOrders, Suc n)
                else if truthy (responseNextToken response)
                        \<and> length (allOrders @ responseOrders response) < 200
                then ordersLoop w token restrictedToken (Suc n)
                       (allOrders @ responseOrders response) (responseNextToken response)
                else (Inr (allOrders @ responseOrders response), Suc n)))"
  by pat_completeness auto
termination
  by (relation "measure (\<lambda>(w, token, restrictedToken, n, allOrders, nextToken).
                            200 - length allOrders)")
    (auto simp add: neq_Nil_conv)

declare ordersLoop.simps [simp del]

definition formatOrder :: "rawOrder \<Rightarrow> orderRecord" where
  "formatOrder order =
     \<lparr>orderId = AmazonOrderId order,
      orderDate = Text (case PurchaseDate order of
                          None \<Rightarrow> ''N/A''
                        | Some d \<Rightarrow> if d \<noteq> [] then takeWhile (\<lambda>c. c \<noteq> CHR ''T'') d else ''N/A''),
      status = orDefault (OrderStatus order) ''Unknown'',
      amount = (case OrderTotal order of
                  None \<Rightarrow> ''N/A''
                | Some t \<Rightarrow> jsText (CurrencyCode t) @ '' '' @ jsText (Amount t))\<rparr>"

text \<open>The body of the \<^verbatim>\<open>try\<close> block of \<^verbatim>\<open>getRecentOrders\<close>.\<close>

definition recentOrdersTry :: "world \<Rightarrow> string option \<Rightarrow> jsError + orderRecord list" where
  "recentOrdersTry w token =
     (if \<not> truthy token then Inl (Error ''Access token is required'')
      else if \<not> checkOrdersApiAccess w token then Inr (generateMockOrderData w)
      else
        (case fst (ordersLoop w token (getRestrictedDataToken w token) 1 [] None) of
           Inl e \<Rightarrow> Inl e
         | Inr allOrders \<Rightarrow> Inr (map formatOrder allOrders)))"

definition ordersPermissionMessage :: string where
  "ordersPermissionMessage =
     ''Your Amazon SP API application doesn't have permission to access Orders. '' @
     ''Please ensure your application is approved and has the 'Orders' role assigned.''"

definition getRecentOrders :: "world \<Rightarrow> string option \<Rightarrow> jsError + orderRecord list" where
  "getRecentOrders w token =
     (case recentOrdersTry w token of
        Inr formattedOrders \<Rightarrow> Inr formattedOrders
      | Inl error \<Rightarrow>
          if errStatus error = Some 403 then
            (if hasAccess (getSellerProfile w token) then Inr (generateMockOrderData w)
             else Inl (Error ordersPermissionMessage))
          else if errStatus error = Some 401 then
            Inl (Error ''Authentication failed. Please reconnect your Amazon account.'')
          else if errStatus error = Some 429 then
            Inl (Error ''Rate limit exceeded. Please try again later.'')
          else Inl (Error (''Failed to get recent orders: '' @
                      orDefault (errApiMessage error) (errMessage error))))"

text \<open>The body of the \<^verbatim>\<open>try\<close> block of \<^verbatim>\<open>getOrderCount\<close>: one request, no paging.\<close>

definition countParams :: "world \<Rightarrow> ordersParams" where
  "countParams w =
     \<lparr>MarketplaceIds = getMarketplaceId (config w),
      CreatedAfter = daysBack w 30, CreatedBefore = Some (now w),
      MaxResultsPerPage = Some 100, NextTokenParam = None\<rparr>"

definition orderCountTry :: "world \<Rightarrow> string option \<Rightarrow> jsError + nat" where
  "orderCountTry w token =
     (if \<not> truthy token then Inl (Error ''Access token is required'')
      else if \<not> checkOrdersApiAccess w token then Inr (length (generateMockOrderData w))
      else
        (case getBaseUrl (config w) of
           Inl e \<Rightarrow> Inl e
         | Inr base \<Rightarrow>
             (case ordersEndpoint w 1 (base @ ''/orders/v0/orders'')
                     (bearerHeaders token
                        (orElse (getRestrictedDataToken w token) token))
                     (countParams w)
              of Inl e \<Rightarrow> Inl e
               | Inr response \<Rightarrow> Inr (length (responseOrders response)))))"

definition getOrderCount :: "world \<Rightarrow> string option \<Rightarrow> jsError + nat" where
  "getOrderCount w token =
     (case orderCountTry w token of
        Inr n \<Rightarrow> Inr n
      | Inl error \<Rightarrow>
          if errStatus error = Some 403 then
            (if hasAccess (getSellerProfile w token)
             then Inr (length (generateMockOrderData w))
             else Inl (Error (''Your Amazon SP API application doesn't have permission to access Orders. '' @
                              ''Please ensure your application is approved and has the 'Orders' role '' @
                              ''assigned in Amazon Developer Console.'')))
          else if errStatus error = Some 401 then
            Inl (Error ''Authentication failed. Please reconnect your Amazon account.'')
          else if errStatus error = Some 429 then
            Inl (Error ''Rate limit exceeded. Please try again later.'')
          else Inl (Error (''Failed to get order count: '' @
                      orDefault (errApiMessage error) (errMessage error))))"

text \<open>
  The number of page requests the loop of \<^verbatim>\<open>getRecentOrders\<close> sends: the loop starts after
  the one request of the access check.
\<close>

definition pagesFetched :: "world \<Rightarrow> string option \<Rightarrow> nat" where
  "pagesFetched w token =
     snd (ordersLoop w token (getRestrictedDataToken w token) 1 [] None) - 1"

section \<open>Several callers of ensureValidAccessToken for one credential\<close>

text \<open>
  In Node the code between two \<^verbatim>\<open>await\<close>s runs without interruption. A request handler
  of routes/amazon.js passes through \<^verbatim>\<open>ensureValidAccessToken\<close> in two such stretches.
  The first starts when \<^verbatim>\<open>User.findById\<close> has delivered the stored document: the checks of
  lines 16 to 30 run on that copy and, if the token is about to expire,
  \<^verbatim>\<open>refreshAccessToken\<close> is called (\<open>ensureBegin\<close>). The second starts when the token
  endpoint has answered: the copy is updated and saved (\<open>ensureResume\<close>). A schedule
  lists which caller runs its next stretch. \<open>issued\<close> records the refresh calls. Every
  caller loads its own copy of the document, as every request handler does, and all of
  them read the clock of the same world.
\<close>

datatype caller = Waiting | Refreshing user amazon_auth | Done "jsError + string option"

record system =
  stored :: user
  callers :: "caller list"
  issued :: "string option list"

definition ensureBegin :: "world \<Rightarrow> user \<Rightarrow> caller" where
  "ensureBegin w user =
     (case amazonAuth user of
        None \<Rightarrow> Done (Inl notConnected)
      | Some auth \<Rightarrow>
          if \<not> truthy (accessToken auth) then Done (Inl notConnected)
          else if expiring (now w) (tokenExpiresAt auth) then
            (if \<not> truthy (refreshToken auth) then
               Done (Inl (Error ''No refresh token available. Please reconnect your Amazon account.''))
             else Refreshing user auth)
          else Done (Inr (accessToken auth)))"

definition ensureResume :: "world \<Rightarrow> user \<Rightarrow> amazon_auth \<Rightarrow> (jsError + string option) \<times> user option" where
  "ensureResume w user auth =
     (case refreshAccessToken w (refreshToken auth) of
        Inl e \<Rightarrow> (Inl e, None)
      | Inr tokenData \<Rightarrow>
          (let user' = user\<lparr>amazonAuth := Some (applyTokenData w auth tokenData)\<rparr>
           in case saveUser w user' of
                Some e \<Rightarrow> (Inl e, None)
              | None \<Rightarrow> (Inr (accessToken (applyTokenData w auth tokenData)), Some user')))"

definition step :: "world \<Rightarrow> nat \<Rightarrow> system \<Rightarrow> system" where
  "step w i s =
     (if i < length (callers s) then
        (case callers s ! i of
           Waiting \<Rightarrow>
             (case ensureBegin w (stored s) of
                Refreshing u a \<Rightarrow>
                  s\<lparr>callers := (callers s)[i := Refreshing u a],
                    issued := issued s @ [refreshToken a]\<rparr>
              | Waiting \<Rightarrow> s
              | Done r \<Rightarrow> s\<lparr>callers := (callers s)[i := Done r]\<rparr>)
         | Refreshing u a \<Rightarrow>
             (case ensureResume w u a of
                (r, saved) \<Rightarrow>
                  s\<lparr>callers := (callers s)[i := Done r],
                    stored := (case saved of None \<Rightarrow> stored s | Some u' \<Rightarrow> u')\<rparr>)
         | Done r \<Rightarrow> s)
      else s)"

definition run :: "world \<Rightarrow> nat list \<Rightarrow> system \<Rightarrow> system" where
  "run w schedule s = fold (step w) schedule s"

definition initial :: "nat \<Rightarrow> user \<Rightarrow> system" where
  "initial n u = \<lparr>stored = u, callers = replicate n Waiting, issued = []\<rparr>"

text \<open>No caller is still before its check.\<close>

definition settled :: "system \<Rightarrow> bool" where
  "settled s = (Waiting \<notin> set (callers s))"

section \<open>The OAuth state parameter (routes/amazon.js, /auth-url and /callback)\<close>

text \<open>
  A text is kept as the list of its UTF-8 bytes, so \<^verbatim>\<open>Buffer.from(text)\<close> and
  \<^verbatim>\<open>buffer.toString()\<close> leave the list as it is. \<^verbatim>\<open>JSON.stringify\<close> escapes the quote, the
  backslash and the control characters and copies every other byte.
\<close>

subsection \<open>Base64 as Node's Buffer writes and reads it\<close>

text \<open>
  The reader skips every character outside the alphabet (it also accepts the URL-safe
  \<^verbatim>\<open>-\<close> and \<^verbatim>\<open>_\<close>), stops at the first \<^verbatim>\<open>=\<close> and writes a byte as soon as its bits are
  complete.
\<close>

definition b64char :: "nat \<Rightarrow> char" where
  "b64char n =
     (if n < 26 then char_of (65 + n)
      else if n < 52 then char_of (71 + n)
      else if n < 62 then char_of (n - 4)
      else if n = 62 then CHR ''+''
      else CHR ''/'')"

definition b64value :: "char \<Rightarrow> nat option" where
  "b64value c =
     (let k = (of_char c :: nat) in
      if 65 \<le> k \<and> k \<le> 90 then Some (k - 65)
      else if 97 \<le> k \<and> k \<le> 122 then Some (k - 71)
      else if 48 \<le> k \<and> k \<le> 57 then Some (k + 4)
      else if k = 43 \<or> k = 45 then Some 62
      else if k = 47 \<or> k = 95 then Some 63
      else None)"

fun sextets :: "nat list \<Rightarrow> nat list" where
  "sextets (a # b # c # rest) =
     [a div 4, (a mod 4) * 16 + b div 16, (b mod 16) * 4 + c div 64, c mod 64] @ sextets rest"
| "sextets [a, b] = [a div 4, (a mod 4) * 16 + b div 16, (b mod 16) * 4]"
| "sextets [a] = [a div 4, (a mod 4) * 16]"
| "sextets [] = []"

definition toBase64 :: "string \<Rightarrow> string" where
  "toBase64 bytes =
     map b64char (sextets (map of_char bytes))
       @ replicate ((3 - length bytes mod 3) mod 3) (CHR ''='')"

fun octets :: "nat list \<Rightarrow> nat list" where
  "octets (a # b # c # d # rest) =
     [a * 4 + b div 16, (b mod 16) * 16 + c div 4, (c mod 4) * 64 + d] @ octets rest"
| "octets [a, b, c] = [a * 4 + b div 16, (b mod 16) * 16 + c div 4]"
| "octets [a, b] = [a * 4 + b div 16]"
| "octets [a] = []"
| "octets [] = []"

definition fromBase64 :: "string \<Rightarrow> string" where
  "fromBase64 s =
     map char_of (octets (List.map_filter b64value (takeWhile (\<lambda>c. c \<noteq> CHR ''='') s)))"

subsection \<open>JSON texts\<close>

text \<open>
  \<open>parseJSON\<close> is \<^verbatim>\<open>JSON.parse\<close> on the texts the callback can get from the state this
  application writes: an object whose values are strings and whole numbers, without
  white space. Other JSON texts (arrays, nested objects, the literals, fractions,
  escapes beyond ASCII) are outside the model and read as \<open>None\<close>, like a syntax error.
  \<open>numberToString\<close> is the decimal numeral, which is what \<^verbatim>\<open>JSON.stringify\<close> writes for a
  whole number below \<open>10\<^sup>2\<^sup>1\<close> such as \<^verbatim>\<open>Date.now()\<close>.
\<close>

abbreviation dquote :: char where "dquote \<equiv> CHR 0x22"
abbreviation backslash :: char where "backslash \<equiv> CHR 0x5C"

datatype json = JString string | JNumber int | JObject "(string \<times> json) list"

definition hexDigit :: "nat \<Rightarrow> char" where
  "hexDigit n = (if n < 10 then char_of (48 + n) else char_of (87 + n))"

definition hexValue :: "char \<Rightarrow> nat option" where
  "hexValue c =
     (let k = (of_char c :: nat) in
      if 48 \<le> k \<and> k \<le> 57 then Some (k - 48)
      else if 97 \<le> k \<and> k \<le> 102 then Some (k - 87)
      else if 65 \<le> k \<and> k \<le> 70 then Some (k - 55)
      else None)"

definition quoteChar :: "char \<Rightarrow> string" where
  "quoteChar c =
     (let n = (of_char c :: nat) in
      if n = 8 then [backslash, CHR ''b'']
      else if n = 9 then [backslash, CHR ''t'']
      else if n = 10 then [backslash, CHR ''n'']
      else if n = 12 then [backslash, CHR ''f'']
      else if n = 13 then [backslash, CHR ''r'']
      else if n = 34 then [backslash, dquote]
      else if n = 92 then [backslash, backslash]
      else if n < 32 then
        [backslash, CHR ''u'', CHR ''0'', CHR ''0'', hexDigit (n div 16), hexDigit (n mod 16)]
      else [c])"

definition quoteJSONString :: "string \<Rightarrow> string" where
  "quoteJSONString s = dquote # concat (map quoteChar s) @ [dquote]"

fun digitsOf :: "nat \<Rightarrow> string" where
  "digitsOf n = (if n < 10 then [char_of (48 + n)] else digitsOf (n div 10) @ [char_of (48 + n mod 10)])"

declare digitsOf.simps [simp del]

definition numberToString :: "int \<Rightarrow> string" where
  "numberToString i = (if i < 0 then CHR ''-'' # digitsOf (nat (- i)) else digitsOf (nat i))"

definition stringifyState :: "string \<Rightarrow> int \<Rightarrow> string" where
  "stringifyState userId timestamp =
     ''{'' @ quoteJSONString ''userId'' @ '':'' @ quoteJSONString userId @ '','' @
     quoteJSONString ''timestamp'' @ '':'' @ numberToString timestamp @ ''}''"

definition unescape :: "char \<Rightarrow> char option" where
  "unescape e =
     (if e = dquote then Some dquote
      else if e = backslash then Some backslash
      else if e = CHR ''/'' then Some (CHR ''/'')
      else if e = CHR ''b'' then Some (char_of (8::nat))
      else if e = CHR ''f'' then Some (char_of (12::nat))
      else if e = CHR ''n'' then Some (char_of (10::nat))
      else if e = CHR ''r'' then Some (char_of (13::nat))
      else if e = CHR ''t'' then Some (char_of (9::nat))
      else None)"

definition hex4 :: "char \<Rightarrow> char \<Rightarrow> char \<Rightarrow> char \<Rightarrow> nat option" where
  "hex4 a b c d =
     (case (hexValue a, hexValue b, hexValue c, hexValue d) of
        (Some w, Some x, Some y, Some z) \<Rightarrow> Some (((w * 16 + x) * 16 + y) * 16 + z)
      | _ \<Rightarrow> None)"

fun consResult :: "char \<Rightarrow> (string \<times> string) option \<Rightarrow> (string \<times> string) option" where
  "consResult c None = None"
| "consResult c (Some (s, rest)) = Some (c # s, rest)"

fun parseChars :: "string \<Rightarrow> (string \<times> string) option" where
  "parseChars [] = None"
| "parseChars (c # cs) =
     (if c = dquote then Some ([], cs)
      else if c = backslash then
        (case cs of
           [] \<Rightarrow> None
         | e # cs' \<Rightarrow>
             if e = CHR ''u'' then
               (case cs' of
                  a # b # c' # d # cs'' \<Rightarrow>
                    (case hex4 a b c' d of
                       None \<Rightarrow> None
                     | Some n \<Rightarrow> if n < 128 then consResult (char_of n) (parseChars cs'') else None)
                | _ \<Rightarrow> None)
             else
               (case unescape e of
                  None \<Rightarrow> None
                | Some x \<Rightarrow> consResult x (parseChars cs')))
      else if (of_char c :: nat) < 32 then None
      else consResult c (parseChars cs))"

definition isDigit :: "char \<Rightarrow> bool" where
  "isDigit c = (48 \<le> (of_char c :: nat) \<and> (of_char c :: nat) \<le> 57)"

definition digitsValue :: "string \<Rightarrow> nat" where
  "digitsValue ds = foldl (\<lambda>acc c. acc * 10 + (of_char c - 48)) 0 ds"

definition parseNumber :: "string \<Rightarrow> (int \<times> string) option" where
  "parseNumber s =
     (let negative = (s \<noteq> [] \<and> hd s = CHR ''-'');
          body = (if negative then tl s else s);
          ds = takeWhile isDigit body;
          rest = dropWhile isDigit body
      in if ds = [] then None
         else if 1 < length ds \<and> hd ds = CHR ''0'' then None
         else if rest \<noteq> [] \<and> hd rest \<in> {CHR ''.'', CHR ''e'', CHR ''E''} then None
         else Some (if negative then - int (digitsValue ds) else int (digitsValue ds), rest))"

definition parseValue :: "string \<Rightarrow> (json \<times> string) option" where
  "parseValue s =
     (case s of
        [] \<Rightarrow> None
      | c # cs \<Rightarrow>
          if c = dquote then map_option (\<lambda>(v, rest). (JString v, rest)) (parseChars cs)
          else map_option (\<lambda>(v, rest). (JNumber v, rest)) (parseNumber s))"

lemma consResult_Some:
  "consResult c r = Some (v, rest) \<longleftrightarrow> (\<exists>v'. r = Some (v', rest) \<and> v = c # v')"
  by (cases r) auto

lemma parseChars_shorter: "parseChars s = Some (v, rest) \<Longrightarrow> length rest < length s"
proof (induction s arbitrary: v rest rule: length_induct)
  case (1 s)
  show ?case
  proof (cases s)
    case Nil
    with "1.prems" show ?thesis by simp
  next
    case (Cons c cs)
    have ih: "parseChars t = Some (v', rest) \<Longrightarrow> length t < length s
                \<Longrightarrow> length rest < length t" for t v'
      using "1.IH" by blast
    from "1.prems" Cons show ?thesis
      by (auto simp add: consResult_Some split: if_splits list.splits option.splits
          dest!: ih)
  qed
qed

lemma parseNumber_shorter: "parseNumber s = Some (v, rest) \<Longrightarrow> length rest < length s"
proof -
  assume a: "parseNumber s = Some (v, rest)"
  define body where "body = (if s \<noteq> [] \<and> hd s = CHR ''-'' then tl s else s)"
  from a have r: "rest = dropWhile isDigit body" and d: "takeWhile isDigit body \<noteq> []"
    by (auto simp add: parseNumber_def Let_def body_def split: if_splits)
  have "length (takeWhile isDigit body) + length (dropWhile isDigit body) = length body"
    by (metis length_append takeWhile_dropWhile_id)
  with d r have "length rest < length body"
    by (cases "takeWhile isDigit body") simp_all
  moreover have "length body \<le> length s"
    by (simp add: body_def)
  ultimately show ?thesis by simp
qed

lemma parseValue_shorter: "parseValue s = Some (v, rest) \<Longrightarrow> length rest < length s"
  by (cases s)
     (auto simp add: parseValue_def split: if_splits
       dest: parseChars_shorter parseNumber_shorter)

function parseMembers :: "string \<Rightarrow> ((string \<times> json) list \<times> string) option" where
  "parseMembers s =
     (case s of
        [] \<Rightarrow> None
      | c # cs \<Rightarrow>
          if c \<noteq> dquote then None
          else
            (case parseChars cs of
               None \<Rightarrow> None
             | Some (k, afterKey) \<Rightarrow>
                 if afterKey = [] \<or> hd afterKey \<noteq> CHR '':'' then None
                 else
                   (case parseValue (tl afterKey) of
                      None \<Rightarrow> None
                    | Some (v, afterValue) \<Rightarrow>
                        if afterValue = [] then None
                        else if hd afterValue = CHR '','' then
                          (case parseMembers (tl afterValue) of
                             None \<Rightarrow> None
                           | Some (ms, rest) \<Rightarrow> Some ((k, v) # ms, rest))
                        else if hd afterValue = CHR ''}'' then Some ([(k, v)], tl afterValue)
                        else None)))"
  by pat_completeness auto
termination
proof (relation "measure length")
  show "wf (measure length)" by simp
next
  fix s :: string and c cs x2 k afterKey x2a v afterValue
  assume "s = c # cs" "parseChars cs = Some x2" "(k, afterKey) = x2"
    "\<not> (afterKey = [] \<or> hd afterKey \<noteq> CHR '':'')"
    "parseValue (tl afterKey) = Some x2a" "(v, afterValue) = x2a" "afterValue \<noteq> []"
  then have "length afterKey < length cs" "length afterValue < length (tl afterKey)"
    using parseChars_shorter [of cs k afterKey] parseValue_shorter [of "tl afterKey" v afterValue]
    by auto
  then show "(tl afterValue, s) \<in> measure length"
    using \<open>s = c # cs\<close> by simp
qed

declare parseMembers.simps [simp del]

definition parseJSON :: "string \<Rightarrow> json option" where
  "parseJSON s =
     (case s of
        [] \<Rightarrow> None
      | c # cs \<Rightarrow>
          if c = CHR ''{'' then
            (if cs = ''}'' then Some (JObject [])
             else (case parseMembers cs of
                     Some (ms, []) \<Rightarrow> Some (JObject ms)
                   | _ \<Rightarrow> None))
          else (case parseValue s of
                  Some (v, []) \<Rightarrow> Some v
                | _ \<Rightarrow> None))"

subsection \<open>The two routes\<close>

datatype response = Status nat string | Redirect string

text \<open>\<^verbatim>\<open>/auth-url\<close>, lines 54 to 66: the state handed to \<^verbatim>\<open>getAuthUrl\<close>.\<close>

definition authUrlState :: "string option \<Rightarrow> int \<Rightarrow> response + string" where
  "authUrlState userId timestamp =
     (case userId of
        None \<Rightarrow> Inl (Status 400 ''User ID not found in token'')
      | Some u \<Rightarrow>
          if u = [] then Inl (Status 400 ''User ID not found in token'')
          else Inr (toBase64 (stringifyState u timestamp)))"

text \<open>\<^verbatim>\<open>decodedState.userId\<close>: the last member of that name.\<close>

fun property :: "json \<Rightarrow> string \<Rightarrow> json option" where
  "property (JObject ms) k = map_of (rev ms) k"
| "property (JString s) k = None"
| "property (JNumber n) k = None"

fun jsonTruthy :: "json \<Rightarrow> bool" where
  "jsonTruthy (JString s) = (s \<noteq> [])"
| "jsonTruthy (JNumber n) = (n \<noteq> 0)"
| "jsonTruthy (JObject ms) = True"

text \<open>
  \<^verbatim>\<open>/callback\<close>, lines 84 to 112: either the response that ends the request or the
  \<open>userId\<close> handed to \<^verbatim>\<open>User.findById\<close>.
\<close>

definition callbackUserId ::
  "string option \<Rightarrow> string option \<Rightarrow> string option \<Rightarrow> string option \<Rightarrow> string option
     \<Rightarrow> response + json" where
  "callbackUserId frontendUrl code spapi_oauth_code state error =
     (if truthy error then
        Inl (Redirect (jsText frontendUrl @ ''/dashboard?error=oauth_failed''))
      else if \<not> truthy (orElse code spapi_oauth_code) \<or> \<not> truthy state then
        Inl (Status 400 ''Missing required parameters'')
      else
        (case parseJSON (fromBase64 (jsText state)) of
           None \<Rightarrow> Inl (Status 400 ''Invalid state parameter'')
         | Some decodedState \<Rightarrow>
             (case property decodedState ''userId'' of
                None \<Rightarrow> Inl (Status 400 ''User ID not found in state'')
              | Some userId \<Rightarrow>
                  if \<not> jsonTruthy userId then Inl (Status 400 ''User ID not found in state'')
                  else Inr userId)))"

section \<open>Sample deployment used to instantiate the theorems\<close>

definition sampleConfig :: config where
  "sampleConfig =
     \<lparr>clientId = Some ''amzn1.application-oa2-client.demo'', clientSecret = Some ''secret'',
      redirectUri = Some ''https://app.example/api/amazon/callback'', region = ''eu'',
      sandbox = False, applicationId = Some ''amzn1.sp.solution.demo''\<rparr>"

definition sampleBundle :: tokenData where
  "sampleBundle =
     \<lparr>access_token = Some ''Atza|fresh'', refresh_token = None, expires_in = Some 3600,
      selling_partner_id = None, seller_id = None\<rparr>"

definition deniedNote :: jsError where
  "deniedNote =
     AxiosError (Some 403) None (Some ''Unauthorized'') ''Request failed with status code 403''"

definition sampleWorld :: world where
  "sampleWorld =
     \<lparr>config = sampleConfig, now = 1700000000000, received = 1700000000400,
      localTZA = (\<lambda>t isUTC. 19800000),
      tokenEndpoint = (\<lambda>req. Inr sampleBundle),
      saveUser = (\<lambda>u. None),
      ordersEndpoint = (\<lambda>n url h p. Inr (Some \<lparr>Orders = [], NextToken = None\<rparr>)),
      rdtEndpoint = (\<lambda>url h. Inl deniedNote),
      participationsEndpoint = (\<lambda>url h. Inr (Some [''A21TJRUUN4KGV''])),
      random = (\<lambda>k. draw_of k 7),
      toString36 = (\<lambda>r. ''0.4fzyo82mvyr''),
      toFixed2 = (\<lambda>r. ''2600.00'')\<rparr>"

definition sampleAuth :: amazon_auth where
  "sampleAuth =
     \<lparr>accessToken = Some ''Atza|stored'', refreshToken = Some ''Atzr|stored'',
      tokenExpiresAt = Some 1700000900000, sellerId = Some ''A1SELLER'',
      connectedAt = Some 1690000000000\<rparr>"

definition sampleUser :: user where
  "sampleUser = \<lparr>userKey = ''665f1c2ab7e4f30012ab34cd'', amazonAuth = Some sampleAuth\<rparr>"

definition staleAuth :: amazon_auth where
  "staleAuth = sampleAuth\<lparr>tokenExpiresAt := Some 1700000100000\<rparr>"

definition staleUser :: user where
  "staleUser = sampleUser\<lparr>amazonAuth := Some staleAuth\<rparr>"

definition rotatingWorld :: world where
  "rotatingWorld =
     sampleWorld\<lparr>tokenEndpoint :=
       (\<lambda>req. Inr (sampleBundle\<lparr>refresh_token := Some ''Atzr|rotated''\<rparr>))\<rparr>"

definition sampleRawOrder :: rawOrder where
  "sampleRawOrder =
     \<lparr>AmazonOrderId = Some ''402-1234567-1234567'',
      PurchaseDate = Some ''2023-11-10T08:15:30Z'', OrderStatus = Some ''Shipped'',
      OrderTotal = Some \<lparr>CurrencyCode = Some ''INR'', Amount = Some ''450.00''\<rparr>\<rparr>"

definition bareRawOrder :: rawOrder where
  "bareRawOrder = sampleRawOrder\<lparr>OrderTotal := None\<rparr>"

text \<open>An upstream that answers every order request with \<open>m\<close> orders and a cursor.\<close>

definition pagedWorld :: "nat \<Rightarrow> world" where
  "pagedWorld m =
     sampleWorld\<lparr>ordersEndpoint :=
       (\<lambda>n url h p. Inr (Some \<lparr>Orders = replicate m sampleRawOrder,
                                 NextToken = Some ''cursor''\<rparr>))\<rparr>"

text \<open>An upstream that answers every order request with three orders and no cursor.\<close>

definition singlePageWorld :: world where
  "singlePageWorld =
     sampleWorld\<lparr>ordersEndpoint :=
       (\<lambda>n url h p. Inr (Some \<lparr>Orders = replicate 3 sampleRawOrder, NextToken = None\<rparr>))\<rparr>"

definition deniedError :: jsError where
  "deniedError =
     AxiosError (Some 403) None (Some ''Access to requested resource is denied.'')
       ''Request failed with status code 403''"

text \<open>Every order request and the participation probe are answered 403.\<close>

definition deniedWorld :: world where
  "deniedWorld =
     sampleWorld\<lparr>ordersEndpoint := (\<lambda>n url h p. Inl deniedError),
                 participationsEndpoint := (\<lambda>url h. Inl deniedError)\<rparr>"

text \<open>The first order request passes, every later one is answered 403.\<close>

definition pageDeniedWorld :: world where
  "pageDeniedWorld =
     sampleWorld\<lparr>ordersEndpoint :=
       (\<lambda>n url h p. if n = 0 then Inr (Some \<lparr>Orders = [], NextToken = None\<rparr>)
                     else Inl deniedError)\<rparr>"

definition pageDeniedNoProfileWorld :: world where
  "pageDeniedNoProfileWorld =
     pageDeniedWorld\<lparr>participationsEndpoint := (\<lambda>url h. Inl deniedError)\<rparr>"

text \<open>A credential that expires in exactly five minutes.\<close>

definition boundaryAuth :: amazon_auth where
  "boundaryAuth = sampleAuth\<lparr>tokenExpiresAt := Some 1700000300000\<rparr>"

definition boundaryUser :: user where
  "boundaryUser = sampleUser\<lparr>amazonAuth := Some boundaryAuth\<rparr>"

text \<open>
  An upstream that hands out three orders, without a cursor, to a request that carries the
  stored access token in both headers, and answers 401 to every other request.
\<close>

definition headerWorld :: world where
  "headerWorld =
     sampleWorld\<lparr>ordersEndpoint :=
       (\<lambda>n url h p.
          if Authorization h = ''Bearer Atza|stored'' \<and> xAmzAccessToken h = Some ''Atza|stored''
          then Inr (Some \<lparr>Orders = replicate 3 sampleRawOrder, NextToken = None\<rparr>)
          else Inl (AxiosError (Some 401) None (Some ''Unauthorized'')
                      ''Request failed with status code 401''))\<rparr>"



text \<open>The stale credential after the refresh of the sample deployment.\<close>

definition refreshedUser :: user where
  "refreshedUser =
     staleUser\<lparr>amazonAuth := Some (applyTokenData sampleWorld staleAuth sampleBundle)\<rparr>"

section \<open>Token freshness\<close>

text \<open>
  Claim C3. A connected credential whose \<open>tokenExpiresAt\<close> lies more than five minutes
  (300000 ms) after the current time is left alone by \<open>ensureValidAccessToken\<close>: no call
  of \<open>refreshAccessToken\<close> is made, the stored access token is returned as it is, the
  user document is unchanged and nothing is saved.
\<close>

theorem ensureValidAccessToken_fresh:
  assumes "amazonAuth user = Some auth"
    and "truthy (accessToken auth)"
    and "tokenExpiresAt auth = Some expiry"
    and "now w + 5 * 60 * 1000 < expiry"
  shows "refreshCalls (ensureValidAccessToken w user) = []
       \<and> returned (ensureValidAccessToken w user) = Inr (accessToken auth)
       \<and> userAfter (ensureValidAccessToken w user) = user
       \<and> saveCalls (ensureValidAccessToken w user) = []"
  using assms by (simp add: ensureValidAccessToken_def bufferTime_def)

theorem ensureValidAccessToken_fresh_witness:
  "amazonAuth sampleUser = Some sampleAuth
   \<and> truthy (accessToken sampleAuth)
   \<and> tokenExpiresAt sampleAuth = Some 1700000900000
   \<and> now sampleWorld + 5 * 60 * 1000 < 1700000900000
   \<and> refreshCalls (ensureValidAccessToken sampleWorld sampleUser) = []
   \<and> returned (ensureValidAccessToken sampleWorld sampleUser) = Inr (Some ''Atza|stored'')
   \<and> userAfter (ensureValidAccessToken sampleWorld sampleUser) = sampleUser
   \<and> saveCalls (ensureValidAccessToken sampleWorld sampleUser) = []"
proof -
  have h1: "amazonAuth sampleUser = Some sampleAuth"
    by (simp add: sampleUser_def)
  have h2: "truthy (accessToken sampleAuth)"
    by (simp add: sampleAuth_def)
  have h3: "tokenExpiresAt sampleAuth = Some 1700000900000"
    by (simp add: sampleAuth_def)
  have h4: "now sampleWorld + 5 * 60 * 1000 < 1700000900000"
    by (simp add: sampleWorld_def)
  have "accessToken sampleAuth = Some ''Atza|stored''"
    by (simp add: sampleAuth_def)
  with ensureValidAccessToken_fresh [OF h1 h2 h3 h4] h1 h2 h3 h4 show ?thesis
    by simp
qed

section \<open>Refresh-token rotation\<close>

lemma refresh_path:
  assumes "amazonAuth user = Some auth"
    and "refreshCalls (ensureValidAccessToken w user) \<noteq> []"
  shows "truthy (accessToken auth) \<and> expiring (now w) (tokenExpiresAt auth)
       \<and> truthy (refreshToken auth)"
  using assms
  by (auto simp add: ensureValidAccessToken_def Let_def split: if_splits)

lemma refresh_updates:
  assumes "amazonAuth user = Some auth"
    and "truthy (accessToken auth)"
    and "expiring (now w) (tokenExpiresAt auth)"
    and "truthy (refreshToken auth)"
    and "refreshAccessToken w (refreshToken auth) = Inr td"
  shows "userAfter (ensureValidAccessToken w user)
           = user\<lparr>amazonAuth := Some (applyTokenData w auth td)\<rparr>"
    and "saveCalls (ensureValidAccessToken w user)
           = [user\<lparr>amazonAuth := Some (applyTokenData w auth td)\<rparr>]"
    and "refreshCalls (ensureValidAccessToken w user) = [refreshToken auth]"
  using assms
  by (simp_all add: ensureValidAccessToken_def Let_def split: option.splits)

text \<open>
  Claim C4. Whenever \<open>ensureValidAccessToken\<close> performs a refresh and the token endpoint
  answers with a bundle \<open>td\<close>: the credential held and saved afterwards carries the
  bundle's \<open>refresh_token\<close> when the bundle has one (a non-empty string), and the
  refresh token it had before when the bundle has none; the access token and the expiry
  are the new ones, and the seller identifier, the connection time and the rest of the
  user document are as before.
\<close>

theorem ensureValidAccessToken_rotation:
  assumes "amazonAuth user = Some auth"
    and "refreshCalls (ensureValidAccessToken w user) \<noteq> []"
    and "refreshAccessToken w (refreshToken auth) = Inr td"
  shows "\<exists>auth'. userAfter (ensureValidAccessToken w user) = user\<lparr>amazonAuth := Some auth'\<rparr>
       \<and> saveCalls (ensureValidAccessToken w user) = [user\<lparr>amazonAuth := Some auth'\<rparr>]
       \<and> refreshToken auth'
           = (if truthy (refresh_token td) then refresh_token td else refreshToken auth)
       \<and> accessToken auth' = access_token td
       \<and> tokenExpiresAt auth' = expiryFrom (received w) (expires_in td)
       \<and> sellerId auth' = sellerId auth
       \<and> connectedAt auth' = connectedAt auth"
proof -
  from refresh_path [OF assms(1,2)]
  have p: "truthy (accessToken auth)" "expiring (now w) (tokenExpiresAt auth)"
    "truthy (refreshToken auth)"
    by simp_all
  let ?a = "applyTokenData w auth td"
  have "userAfter (ensureValidAccessToken w user) = user\<lparr>amazonAuth := Some ?a\<rparr>"
    and "saveCalls (ensureValidAccessToken w user) = [user\<lparr>amazonAuth := Some ?a\<rparr>]"
    using refresh_updates [OF assms(1) p assms(3)] by simp_all
  moreover have "refreshToken ?a
      = (if truthy (refresh_token td) then refresh_token td else refreshToken auth)"
    and "accessToken ?a = access_token td"
    and "tokenExpiresAt ?a = expiryFrom (received w) (expires_in td)"
    and "sellerId ?a = sellerId auth"
    and "connectedAt ?a = connectedAt auth"
    by (simp_all add: applyTokenData_def Let_def)
  ultimately show ?thesis by blast
qed

lemma validateConfig_sample: "validateConfig sampleConfig = Inr ()"
  by (simp add: validateConfig_def sampleConfig_def)

lemma refresh_sample:
  "refreshAccessToken sampleWorld (Some ''Atzr|stored'') = Inr sampleBundle"
  by (simp add: refreshAccessToken_def sampleWorld_def validateConfig_sample)

lemma refresh_rotating:
  "refreshAccessToken rotatingWorld (Some ''Atzr|stored'')
     = Inr (sampleBundle\<lparr>refresh_token := Some ''Atzr|rotated''\<rparr>)"
  by (simp add: refreshAccessToken_def rotatingWorld_def sampleWorld_def validateConfig_sample)

lemma stale_calls:
  "refreshCalls (ensureValidAccessToken sampleWorld staleUser) = [Some ''Atzr|stored'']"
  "refreshCalls (ensureValidAccessToken rotatingWorld staleUser) = [Some ''Atzr|stored'']"
  by (simp_all add: ensureValidAccessToken_def staleUser_def staleAuth_def sampleAuth_def
      refresh_sample refresh_rotating bufferTime_def Let_def,
      simp_all add: sampleWorld_def rotatingWorld_def)

theorem ensureValidAccessToken_rotation_witness:
  "amazonAuth staleUser = Some staleAuth
   \<and> refreshCalls (ensureValidAccessToken sampleWorld staleUser) \<noteq> []
   \<and> refreshAccessToken sampleWorld (refreshToken staleAuth) = Inr sampleBundle
   \<and> (\<exists>auth'. userAfter (ensureValidAccessToken sampleWorld staleUser)
                  = staleUser\<lparr>amazonAuth := Some auth'\<rparr>
        \<and> refreshToken auth' = Some ''Atzr|stored''
        \<and> accessToken auth' = Some ''Atza|fresh''
        \<and> sellerId auth' = Some ''A1SELLER'')
   \<and> refreshCalls (ensureValidAccessToken rotatingWorld staleUser) \<noteq> []
   \<and> refreshAccessToken rotatingWorld (refreshToken staleAuth)
        = Inr (sampleBundle\<lparr>refresh_token := Some ''Atzr|rotated''\<rparr>)
   \<and> (\<exists>auth'. userAfter (ensureValidAccessToken rotatingWorld staleUser)
                  = staleUser\<lparr>amazonAuth := Some auth'\<rparr>
        \<and> refreshToken auth' = Some ''Atzr|rotated''
        \<and> accessToken auth' = Some ''Atza|fresh''
        \<and> sellerId auth' = Some ''A1SELLER'')"
proof -
  have h1: "amazonAuth staleUser = Some staleAuth"
    by (simp add: staleUser_def)
  have rt: "refreshToken staleAuth = Some ''Atzr|stored''"
    and sid: "sellerId staleAuth = Some ''A1SELLER''"
    by (simp_all add: staleAuth_def sampleAuth_def)
  have h2: "refreshCalls (ensureValidAccessToken sampleWorld staleUser) \<noteq> []"
    by (simp add: stale_calls)
  have h3: "refreshAccessToken sampleWorld (refreshToken staleAuth) = Inr sampleBundle"
    by (simp add: rt refresh_sample)
  have k2: "refreshCalls (ensureValidAccessToken rotatingWorld staleUser) \<noteq> []"
    by (simp add: stale_calls)
  have k3: "refreshAccessToken rotatingWorld (refreshToken staleAuth)
              = Inr (sampleBundle\<lparr>refresh_token := Some ''Atzr|rotated''\<rparr>)"
    by (simp add: rt refresh_rotating)
  have a: "\<exists>auth'. userAfter (ensureValidAccessToken sampleWorld staleUser)
                  = staleUser\<lparr>amazonAuth := Some auth'\<rparr>
        \<and> refreshToken auth' = Some ''Atzr|stored''
        \<and> accessToken auth' = Some ''Atza|fresh''
        \<and> sellerId auth' = Some ''A1SELLER''"
    using ensureValidAccessToken_rotation [OF h1 h2 h3]
    by (simp add: rt sid sampleBundle_def) blast
  have b: "\<exists>auth'. userAfter (ensureValidAccessToken rotatingWorld staleUser)
                  = staleUser\<lparr>amazonAuth := Some auth'\<rparr>
        \<and> refreshToken auth' = Some ''Atzr|rotated''
        \<and> accessToken auth' = Some ''Atza|fresh''
        \<and> sellerId auth' = Some ''A1SELLER''"
    using ensureValidAccessToken_rotation [OF h1 k2 k3]
    by (simp add: rt sid sampleBundle_def) blast
  from h1 h2 h3 a k2 k3 b show ?thesis by blast
qed

section \<open>Formatting of upstream orders\<close>

lemma getRecentOrders_listing:
  assumes "truthy tok" and "checkOrdersApiAccess w tok"
    and "fst (ordersLoop w tok (getRestrictedDataToken w tok) 1 [] None) = Inr allOrders"
  shows "getRecentOrders w tok = Inr (map formatOrder allOrders)"
  using assms by (simp add: getRecentOrders_def recentOrdersTry_def)

text \<open>
  Claim C9. The order record built from an upstream order whose \<open>OrderTotal\<close> is
  \<open>{CurrencyCode: "INR", Amount: "450.00"}\<close> has the amount \<open>"INR 450.00"\<close>; built from an
  upstream order without \<open>OrderTotal\<close> it has the marker \<open>"N/A"\<close>, which is neither
  \<open>"0"\<close> nor the empty string.
\<close>

theorem formatOrder_amount:
  "(OrderTotal order = Some \<lparr>CurrencyCode = Some ''INR'', Amount = Some ''450.00''\<rparr>
      \<longrightarrow> amount (formatOrder order) = ''INR 450.00'')
   \<and> (OrderTotal order = None
      \<longrightarrow> amount (formatOrder order) = ''N/A''
        \<and> amount (formatOrder order) \<noteq> ''0'' \<and> amount (formatOrder order) \<noteq> [])"
  by (simp add: formatOrder_def)

theorem formatOrder_amount_witness:
  "OrderTotal sampleRawOrder = Some \<lparr>CurrencyCode = Some ''INR'', Amount = Some ''450.00''\<rparr>
   \<and> amount (formatOrder sampleRawOrder) = ''INR 450.00''
   \<and> OrderTotal bareRawOrder = None
   \<and> amount (formatOrder bareRawOrder) = ''N/A''
   \<and> amount (formatOrder bareRawOrder) \<noteq> ''0''
   \<and> amount (formatOrder bareRawOrder) \<noteq> []"
proof -
  have a: "OrderTotal sampleRawOrder
             = Some \<lparr>CurrencyCode = Some ''INR'', Amount = Some ''450.00''\<rparr>"
    by (simp add: sampleRawOrder_def)
  have b: "OrderTotal bareRawOrder = None"
    by (simp add: bareRawOrder_def)
  from a b formatOrder_amount [of sampleRawOrder] formatOrder_amount [of bareRawOrder]
  show ?thesis by blast
qed

section \<open>The paging loop\<close>

lemma ordersLoop_no_base:
  assumes "getBaseUrl (config w) = Inl e"
  shows "ordersLoop w tok rt n acc nt = (Inl e, n)"
  using assms by (subst ordersLoop.simps) simp

lemma ordersLoop_rejected:
  assumes "getBaseUrl (config w) = Inr base"
    and "ordersEndpoint w n (base @ ''/orders/v0/orders'')
           (bearerHeaders tok (orElse rt tok)) (pageParams w nt) = Inl e"
  shows "ordersLoop w tok rt n acc nt = (Inl e, Suc n)"
  using assms by (subst ordersLoop.simps) simp

lemma ordersLoop_break:
  assumes "getBaseUrl (config w) = Inr base"
    and "ordersEndpoint w n (base @ ''/orders/v0/orders'')
           (bearerHeaders tok (orElse rt tok)) (pageParams w nt) = Inr r"
    and "responseOrders r = []"
  shows "ordersLoop w tok rt n acc nt = (Inr acc, Suc n)"
  using assms by (subst ordersLoop.simps) simp

lemma ordersLoop_continue:
  assumes "getBaseUrl (config w) = Inr base"
    and "ordersEndpoint w n (base @ ''/orders/v0/orders'')
           (bearerHeaders tok (orElse rt tok)) (pageParams w nt) = Inr r"
    and "responseOrders r \<noteq> []"
    and "truthy (responseNextToken r)"
    and "length acc + length (responseOrders r) < 200"
  shows "ordersLoop w tok rt n acc nt
           = ordersLoop w tok rt (Suc n) (acc @ responseOrders r) (responseNextToken r)"
  using assms by (subst ordersLoop.simps) simp

lemma ordersLoop_stop:
  assumes "getBaseUrl (config w) = Inr base"
    and "ordersEndpoint w n (base @ ''/orders/v0/orders'')
           (bearerHeaders tok (orElse rt tok)) (pageParams w nt) = Inr r"
    and "responseOrders r \<noteq> []"
    and "\<not> (truthy (responseNextToken r) \<and> length acc + length (responseOrders r) < 200)"
  shows "ordersLoop w tok rt n acc nt = (Inr (acc @ responseOrders r), Suc n)"
  using assms by (subst ordersLoop.simps) auto

text \<open>Every pass but the last adds at least one order below the ceiling of 200.\<close>

lemma ordersLoop_requests:
  "length allOrders < 200 \<Longrightarrow>
   snd (ordersLoop w tok rt n allOrders nt) + length allOrders \<le> n + 200"
proof (induction w tok rt n allOrders nt rule: ordersLoop.induct)
  case (1 w tok rt n allOrders nt)
  show ?case
  proof (cases "getBaseUrl (config w)")
    case (Inl e)
    then show ?thesis using "1.prems" by (simp add: ordersLoop_no_base)
  next
    case (Inr base)
    show ?thesis
    proof (cases "ordersEndpoint w n (base @ ''/orders/v0/orders'')
                    (bearerHeaders tok (orElse rt tok)) (pageParams w nt)")
      case (Inl e)
      then show ?thesis using Inr "1.prems" by (simp add: ordersLoop_rejected)
    next
      case r: (Inr response)
      consider (break) "responseOrders response = []"
        | (continue) "responseOrders response \<noteq> []" "truthy (responseNextToken response)"
            "length allOrders + length (responseOrders response) < 200"
        | (stop) "responseOrders response \<noteq> []"
            "\<not> (truthy (responseNextToken response)
                \<and> length allOrders + length (responseOrders response) < 200)"
        by blast
      then show ?thesis
      proof cases
        case break
        then show ?thesis using "1.prems" by (simp add: ordersLoop_break [OF Inr r])
      next
        case continue
        have ih: "snd (ordersLoop w tok rt (Suc n) (allOrders @ responseOrders response)
                     (responseNextToken response))
                   + length (allOrders @ responseOrders response) \<le> Suc n + 200"
          using "1.IH" [OF Inr r] continue by simp
        have pos: "0 < length (responseOrders response)"
          using continue(1) by simp
        have eq: "ordersLoop w tok rt n allOrders nt
                   = ordersLoop w tok rt (Suc n) (allOrders @ responseOrders response)
                       (responseNextToken response)"
          using ordersLoop_continue [OF Inr r continue] .
        from ih pos show ?thesis unfolding eq length_append by linarith
      next
        case stop
        then show ?thesis using "1.prems" by (simp add: ordersLoop_stop [OF Inr r])
      qed
    qed
  qed
qed

text \<open>The ceiling is tested after a page is appended, so the last page may pass it.\<close>

lemma ordersLoop_length:
  "\<forall>n url h p r. ordersEndpoint w n url h p = Inr r \<longrightarrow> length (responseOrders r) \<le> m
     \<Longrightarrow> length allOrders < 200
     \<Longrightarrow> fst (ordersLoop w tok rt n allOrders nt) = Inr result
     \<Longrightarrow> length result < 200 + m"
proof (induction w tok rt n allOrders nt rule: ordersLoop.induct)
  case (1 w tok rt n allOrders nt)
  note pages = "1.prems"(1) and small = "1.prems"(2) and res = "1.prems"(3)
  show ?case
  proof (cases "getBaseUrl (config w)")
    case (Inl e)
    then show ?thesis using res by (simp add: ordersLoop_no_base)
  next
    case (Inr base)
    show ?thesis
    proof (cases "ordersEndpoint w n (base @ ''/orders/v0/orders'')
                    (bearerHeaders tok (orElse rt tok)) (pageParams w nt)")
      case (Inl e)
      then show ?thesis using Inr res by (simp add: ordersLoop_rejected)
    next
      case r: (Inr response)
      have pg: "length (responseOrders response) \<le> m"
        using pages r by blast
      consider (break) "responseOrders response = []"
        | (continue) "responseOrders response \<noteq> []" "truthy (responseNextToken response)"
            "length allOrders + length (responseOrders response) < 200"
        | (stop) "responseOrders response \<noteq> []"
            "\<not> (truthy (responseNextToken response)
                \<and> length allOrders + length (responseOrders response) < 200)"
        by blast
      then show ?thesis
      proof cases
        case break
        then show ?thesis using res small by (simp add: ordersLoop_break [OF Inr r])
      next
        case continue
        have "fst (ordersLoop w tok rt (Suc n) (allOrders @ responseOrders response)
                     (responseNextToken response)) = Inr result"
          using res by (simp add: ordersLoop_continue [OF Inr r continue])
        then show ?thesis
          using "1.IH" [OF Inr r] continue pages by simp
      next
        case stop
        have "result = allOrders @ responseOrders response"
          using res by (simp add: ordersLoop_stop [OF Inr r stop])
        then show ?thesis using small pg by simp
      qed
    qed
  qed
qed

lemma ordersLoop_fifty:
  assumes base: "getBaseUrl (config w) = Inr base"
    and pages: "\<forall>n url h p. \<exists>pl. ordersEndpoint w n url h p = Inr (Some pl)
                  \<and> length (Orders pl) = 50 \<and> truthy (NextToken pl)"
  shows "length acc + 50 * Suc k = 200
     \<Longrightarrow> \<exists>result. ordersLoop w tok rt n acc nt = (Inr result, n + Suc k) \<and> length result = 200"
proof (induction k arbitrary: n acc nt)
  case 0
  obtain pl where pl: "ordersEndpoint w n (base @ ''/orders/v0/orders'')
        (bearerHeaders tok (orElse rt tok)) (pageParams w nt) = Inr (Some pl)"
      "length (Orders pl) = 50" "truthy (NextToken pl)"
    using pages by blast
  have "ordersLoop w tok rt n acc nt = (Inr (acc @ responseOrders (Some pl)), Suc n)"
    using pl(2) "0.prems" by (intro ordersLoop_stop [OF base pl(1)]) auto
  then show ?case using pl(2) "0.prems" by simp
next
  case (Suc k)
  obtain pl where pl: "ordersEndpoint w n (base @ ''/orders/v0/orders'')
        (bearerHeaders tok (orElse rt tok)) (pageParams w nt) = Inr (Some pl)"
      "length (Orders pl) = 50" "truthy (NextToken pl)"
    using pages by blast
  have eq: "ordersLoop w tok rt n acc nt
      = ordersLoop w tok rt (Suc n) (acc @ responseOrders (Some pl)) (responseNextToken (Some pl))"
    using pl(2,3) Suc.prems by (intro ordersLoop_continue [OF base pl(1)]) (auto simp add: orElse_def)
  have "length (acc @ responseOrders (Some pl)) + 50 * Suc k = 200"
    using pl(2) Suc.prems by simp
  from Suc.IH [OF this, of "Suc n" "responseNextToken (Some pl)"]
  show ?case unfolding eq by simp
qed

lemma generateMockOrderData_length: "length (generateMockOrderData w) = length (mockLoop w 0 0 [])"
  by (simp add: generateMockOrderData_def)

section \<open>Synthetic orders\<close>

lemma draw_value_range: "0 \<le> draw_value d" "draw_value d < 1"
  by (transfer, simp)+

lemma floorTimes_less:
  assumes "0 < n"
  shows "floorTimes d n < n"
proof -
  have "draw_value d * real n < real n"
    using draw_value_range(2) [of d] assms by simp
  then have "\<lfloor>draw_value d * real n\<rfloor> < int n"
    by (simp add: floor_less_iff)
  then show ?thesis
    unfolding floorTimes_def using assms by linarith
qed

lemma mockLoop_length_ge: "length acc + (5 - i) \<le> length (mockLoop w i k acc)"
proof (induction w i k acc rule: mockLoop.induct)
  case (1 w i k acc)
  show ?case
  proof (cases "i < floorTimes (random w k) 20 + 5")
    case True
    then have "mockLoop w i k acc = mockLoop w (i + 1) (k + 5) (acc @ [mockOrder w k])"
      by (subst mockLoop.simps) simp
    with "1.IH" [OF True] show ?thesis by simp
  next
    case False
    then have "mockLoop w i k acc = acc"
      by (subst mockLoop.simps) simp
    with False show ?thesis by simp
  qed
qed

lemma mockLoop_length_le: "length (mockLoop w i k acc) \<le> length acc + (24 - i)"
proof (induction w i k acc rule: mockLoop.induct)
  case (1 w i k acc)
  show ?case
  proof (cases "i < floorTimes (random w k) 20 + 5")
    case True
    then have eq: "mockLoop w i k acc = mockLoop w (i + 1) (k + 5) (acc @ [mockOrder w k])"
      by (subst mockLoop.simps) simp
    have "i < 24"
      using True floorTimes_less [of 20 "random w k"] by simp
    with "1.IH" [OF True] show ?thesis unfolding eq by simp
  next
    case False
    then have "mockLoop w i k acc = acc"
      by (subst mockLoop.simps) simp
    then show ?thesis by simp
  qed
qed






lemma generateMockOrderData_count:
  "5 \<le> length (generateMockOrderData w)" "length (generateMockOrderData w) \<le> 24"
  using mockLoop_length_ge [of "[]" 0 w 0] mockLoop_length_le [of w 0 0 "[]"]
  by (simp_all add: generateMockOrderData_length)


section \<open>Termination and size of the retrieval\<close>

lemma getRecentOrders_cases:
  assumes "getRecentOrders w tok = Inr orders"
  shows "orders = generateMockOrderData w
       \<or> (\<exists>allOrders. fst (ordersLoop w tok (getRestrictedDataToken w tok) 1 [] None)
                         = Inr allOrders \<and> orders = map formatOrder allOrders)"
  using assms
  by (auto simp add: getRecentOrders_def recentOrdersTry_def split: sum.splits if_splits)

lemma checkOrdersApiAccess_passes:
  assumes "getBaseUrl (config w) = Inr base"
    and "ordersEndpoint w 0 (base @ ''/orders/v0/orders'') (bearerHeaders tok tok)
           (accessCheckParams w) = Inr r"
  shows "checkOrdersApiAccess w tok"
  using assms by (simp add: checkOrdersApiAccess_def)

text \<open>
  Claim C2, as the code has it. \<open>ordersLoop\<close> is a total function: the loop of
  \<open>getRecentOrders\<close> ends for every upstream, after at most 200 page requests. The
  ceiling of 200 is tested only after a page has been appended and nothing is cut off,
  so the list may be longer than 200: when no page holds more than 50 orders it has
  fewer than 250. When every page holds exactly 50 orders and a cursor, exactly 4 pages
  are fetched and 200 orders returned.
\<close>

theorem getRecentOrders_paging_bounds:
  "pagesFetched w tok \<le> 200
   \<and> ((\<forall>n url h p r. ordersEndpoint w n url h p = Inr r \<longrightarrow> length (responseOrders r) \<le> 50)
        \<longrightarrow> (\<forall>orders. getRecentOrders w tok = Inr orders \<longrightarrow> length orders < 250))
   \<and> (truthy tok \<and> getBaseUrl (config w) = Inr base
        \<and> (\<forall>n url h p. \<exists>pl. ordersEndpoint w n url h p = Inr (Some pl)
               \<and> length (Orders pl) = 50 \<and> truthy (NextToken pl))
        \<longrightarrow> pagesFetched w tok = 4
          \<and> (\<exists>orders. getRecentOrders w tok = Inr orders \<and> length orders = 200))"
proof (intro conjI impI allI)
  show "pagesFetched w tok \<le> 200"
    using ordersLoop_requests [of "[]" w tok "getRestrictedDataToken w tok" 1 None]
    by (simp add: pagesFetched_def)
next
  fix orders
  assume pages: "\<forall>n url h p r. ordersEndpoint w n url h p = Inr r
                   \<longrightarrow> length (responseOrders r) \<le> 50"
    and res: "getRecentOrders w tok = Inr orders"
  from getRecentOrders_cases [OF res] show "length orders < 250"
  proof
    assume "orders = generateMockOrderData w"
    then show ?thesis using generateMockOrderData_count(2) [of w] by simp
  next
    assume "\<exists>allOrders. fst (ordersLoop w tok (getRestrictedDataToken w tok) 1 [] None)
                         = Inr allOrders \<and> orders = map formatOrder allOrders"
    then obtain allOrders
      where a: "fst (ordersLoop w tok (getRestrictedDataToken w tok) 1 [] None) = Inr allOrders"
        and o: "orders = map formatOrder allOrders"
      by blast
    have "length allOrders < 200 + 50"
      using ordersLoop_length [OF pages _ a] by simp
    then show ?thesis using o by simp
  qed
next
  assume h: "truthy tok \<and> getBaseUrl (config w) = Inr base
        \<and> (\<forall>n url h p. \<exists>pl. ordersEndpoint w n url h p = Inr (Some pl)
               \<and> length (Orders pl) = 50 \<and> truthy (NextToken pl))"
  then have t: "truthy tok" and b: "getBaseUrl (config w) = Inr base"
    and pages: "\<forall>n url h p. \<exists>pl. ordersEndpoint w n url h p = Inr (Some pl)
               \<and> length (Orders pl) = 50 \<and> truthy (NextToken pl)"
    by simp_all
  obtain result
    where loop: "ordersLoop w tok (getRestrictedDataToken w tok) 1 [] None = (Inr result, 1 + Suc 3)"
      and len: "length result = 200"
    using ordersLoop_fifty [OF b pages, of "[]" 3 tok "getRestrictedDataToken w tok" 1 None]
    by auto
  have chk: "checkOrdersApiAccess w tok"
    using pages checkOrdersApiAccess_passes [OF b] by blast
  show "pagesFetched w tok = 4"
    using loop by (simp add: pagesFetched_def)
  show "\<exists>orders. getRecentOrders w tok = Inr orders \<and> length orders = 200"
    using getRecentOrders_listing [OF t chk, of result] loop len by simp
qed

lemma base_sample:
  "getBaseUrl sampleConfig = Inr ''https://sellingpartnerapi-eu.amazon.com''"
  by (simp add: sampleConfig_def getBaseUrl_def toLowerCase_def)

lemma base_paged:
  "getBaseUrl (config (pagedWorld m)) = Inr ''https://sellingpartnerapi-eu.amazon.com''"
  by (simp add: pagedWorld_def sampleWorld_def base_sample)

lemma paged_endpoint:
  "ordersEndpoint (pagedWorld m)
     = (\<lambda>n url h p. Inr (Some \<lparr>Orders = replicate m sampleRawOrder,
                               NextToken = Some ''cursor''\<rparr>))"
  by (simp add: pagedWorld_def)

lemma paged_access: "checkOrdersApiAccess (pagedWorld m) tok"
  by (simp add: checkOrdersApiAccess_def base_paged paged_endpoint)

lemma paged_continue:
  assumes "0 < m" and "length acc + m < 200"
  shows "ordersLoop (pagedWorld m) tok rt n acc nt
           = ordersLoop (pagedWorld m) tok rt (Suc n) (acc @ replicate m sampleRawOrder)
               (Some ''cursor'')"
  using assms
  by (subst ordersLoop_continue [OF base_paged,
        where r = "Some \<lparr>Orders = replicate m sampleRawOrder, NextToken = Some ''cursor''\<rparr>"])
     (simp_all add: paged_endpoint orElse_def)

lemma paged_stop:
  assumes "0 < m" and "\<not> length acc + m < 200"
  shows "ordersLoop (pagedWorld m) tok rt n acc nt
           = (Inr (acc @ replicate m sampleRawOrder), Suc n)"
  using assms
  by (subst ordersLoop_stop [OF base_paged,
        where r = "Some \<lparr>Orders = replicate m sampleRawOrder, NextToken = Some ''cursor''\<rparr>"])
     (simp_all add: paged_endpoint orElse_def)

lemma paged_thirty:
  "ordersLoop (pagedWorld 30) tok rt (Suc 0) [] None = (Inr (replicate 210 sampleRawOrder), 8)"
  by (simp add: paged_continue paged_stop replicate_add [symmetric])

lemma paged_fifty:
  "ordersLoop (pagedWorld 50) tok rt (Suc 0) [] None = (Inr (replicate 200 sampleRawOrder), 5)"
  by (simp add: paged_continue paged_stop replicate_add [symmetric])

theorem getRecentOrders_paging_bounds_witness:
  "truthy (Some ''Atza|stored'')
   \<and> getBaseUrl (config (pagedWorld 50)) = Inr ''https://sellingpartnerapi-eu.amazon.com''
   \<and> (\<forall>n url h p. \<exists>pl. ordersEndpoint (pagedWorld 50) n url h p = Inr (Some pl)
          \<and> length (Orders pl) = 50 \<and> truthy (NextToken pl))
   \<and> pagesFetched (pagedWorld 50) (Some ''Atza|stored'') \<le> 200
   \<and> pagesFetched (pagedWorld 50) (Some ''Atza|stored'') = 4
   \<and> (\<exists>orders. getRecentOrders (pagedWorld 50) (Some ''Atza|stored'') = Inr orders
          \<and> length orders = 200 \<and> length orders < 250)"
proof -
  have t: "truthy (Some ''Atza|stored'')" by simp
  have pages: "\<forall>n url h p. \<exists>pl. ordersEndpoint (pagedWorld 50) n url h p = Inr (Some pl)
          \<and> length (Orders pl) = 50 \<and> truthy (NextToken pl)"
    by (simp add: paged_endpoint)
  have sizes: "\<forall>n url h p r. ordersEndpoint (pagedWorld 50) n url h p = Inr r
          \<longrightarrow> length (responseOrders r) \<le> 50"
    by (auto simp add: paged_endpoint)
  note inst = getRecentOrders_paging_bounds [of "pagedWorld 50" "Some ''Atza|stored''"
      "''https://sellingpartnerapi-eu.amazon.com''"]
  from inst t base_paged [of 50] pages
  have four: "pagesFetched (pagedWorld 50) (Some ''Atza|stored'') = 4"
    and ex: "\<exists>orders. getRecentOrders (pagedWorld 50) (Some ''Atza|stored'') = Inr orders
          \<and> length orders = 200"
    by blast+
  from inst have le: "pagesFetched (pagedWorld 50) (Some ''Atza|stored'') \<le> 200"
    by blast
  from inst sizes
  have "\<forall>orders. getRecentOrders (pagedWorld 50) (Some ''Atza|stored'') = Inr orders
          \<longrightarrow> length orders < 250"
    by blast
  with ex have "\<exists>orders. getRecentOrders (pagedWorld 50) (Some ''Atza|stored'') = Inr orders
          \<and> length orders = 200 \<and> length orders < 250"
    by blast
  with t base_paged [of 50] pages le four show ?thesis by blast
qed

text \<open>
  Claim C2 as stated fails: an upstream that answers every page request with 30 orders
  and a cursor is read seven times (180 orders are still below the ceiling) and 210
  orders are returned.
\<close>

theorem getRecentOrders_exceeds_cap:
  "getRecentOrders (pagedWorld 30) (Some ''Atza|stored'')
     = Inr (replicate 210 (formatOrder sampleRawOrder))
   \<and> pagesFetched (pagedWorld 30) (Some ''Atza|stored'') = 7
   \<and> 200 < length (replicate 210 (formatOrder sampleRawOrder))"
proof -
  have "getRecentOrders (pagedWorld 30) (Some ''Atza|stored'')
          = Inr (map formatOrder (replicate 210 sampleRawOrder))"
    by (rule getRecentOrders_listing) (simp_all add: paged_access paged_thirty)
  moreover have "pagesFetched (pagedWorld 30) (Some ''Atza|stored'') = 7"
    by (simp add: pagesFetched_def paged_thirty)
  ultimately show ?thesis by simp
qed

section \<open>Permission failures and the synthetic fallback\<close>

lemma getRecentOrders_unchecked:
  assumes "truthy tok" and "\<not> checkOrdersApiAccess w tok"
  shows "getRecentOrders w tok = Inr (generateMockOrderData w)"
  using assms by (simp add: getRecentOrders_def recentOrdersTry_def)

lemma getRecentOrders_rejected:
  assumes "truthy tok" and "checkOrdersApiAccess w tok"
    and "fst (ordersLoop w tok (getRestrictedDataToken w tok) 1 [] None) = Inl e"
    and "errStatus e = Some 403"
  shows "getRecentOrders w tok
           = (if hasAccess (getSellerProfile w tok) then Inr (generateMockOrderData w)
              else Inl (Error ordersPermissionMessage))"
  using assms by (simp add: getRecentOrders_def recentOrdersTry_def)








lemma pageDenied_fields:
  "random pageDeniedWorld = (\<lambda>k. draw_of k 7)"
  "now pageDeniedWorld = 1700000000000"
  "localTZA pageDeniedWorld = (\<lambda>t isUTC. 19800000)"
  "config pageDeniedWorld = sampleConfig"
  "participationsEndpoint pageDeniedWorld = (\<lambda>url h. Inr (Some [''A21TJRUUN4KGV'']))"
  "ordersEndpoint pageDeniedWorld
     = (\<lambda>n url h p. if n = 0 then Inr (Some \<lparr>Orders = [], NextToken = None\<rparr>)
                     else Inl deniedError)"
  by (simp_all add: pageDeniedWorld_def sampleWorld_def)













section \<open>Permission denied without a fallback\<close>

lemma denied_fields:
  "config deniedWorld = sampleConfig"
  "ordersEndpoint deniedWorld = (\<lambda>n url h p. Inl deniedError)"
  "participationsEndpoint deniedWorld = (\<lambda>url h. Inl deniedError)"
  by (simp_all add: deniedWorld_def sampleWorld_def)

lemma denied_access: "\<not> checkOrdersApiAccess deniedWorld tok"
  by (simp add: checkOrdersApiAccess_def denied_fields base_sample)

lemma denied_profile: "\<not> hasAccess (getSellerProfile deniedWorld tok)"
  by (simp add: getSellerProfile_def denied_fields base_sample)

lemma pageDeniedNoProfile_fields:
  "config pageDeniedNoProfileWorld = sampleConfig"
  "participationsEndpoint pageDeniedNoProfileWorld = (\<lambda>url h. Inl deniedError)"
  "ordersEndpoint pageDeniedNoProfileWorld
     = (\<lambda>n url h p. if n = 0 then Inr (Some \<lparr>Orders = [], NextToken = None\<rparr>)
                     else Inl deniedError)"
  by (simp_all add: pageDeniedNoProfileWorld_def pageDenied_fields)

text \<open>
  Claim C6 as stated fails: when the order endpoint answers 403 to every request and the
  participation probe fails as well, the request of the access check is the first to be
  rejected, and \<open>getRecentOrders\<close> returns the synthetic orders without asking the probe.
\<close>

theorem getRecentOrders_denied_returns_synthetic:
  "ordersEndpoint deniedWorld = (\<lambda>n url h p. Inl deniedError)
   \<and> errStatus deniedError = Some 403
   \<and> hasAccess (getSellerProfile deniedWorld (Some ''Atza|stored'')) = False
   \<and> getRecentOrders deniedWorld (Some ''Atza|stored'') = Inr (generateMockOrderData deniedWorld)
   \<and> generateMockOrderData deniedWorld \<noteq> []
   \<and> getRecentOrders deniedWorld (Some ''Atza|stored'') \<noteq> Inl (Error ordersPermissionMessage)"
proof -
  have r: "getRecentOrders deniedWorld (Some ''Atza|stored'')
             = Inr (generateMockOrderData deniedWorld)"
    by (rule getRecentOrders_unchecked) (simp_all add: denied_access)
  have "generateMockOrderData deniedWorld \<noteq> []"
    using generateMockOrderData_count(1) [of deniedWorld] by auto
  with r show ?thesis
    by (simp add: denied_fields denied_profile deniedError_def)
qed

text \<open>
  Claim C6, as the code has it. When the access check has passed and a page request of
  the loop is then rejected with 403 while the participation probe fails,
  \<open>getRecentOrders\<close> raises the permission error and returns nothing. When the request
  of the access check itself is rejected, the synthetic orders are returned and the
  probe is not consulted.
\<close>

theorem getRecentOrders_access_denied:
  "(truthy tok \<and> checkOrdersApiAccess w tok
      \<and> fst (ordersLoop w tok (getRestrictedDataToken w tok) 1 [] None) = Inl e
      \<and> errStatus e = Some 403 \<and> \<not> hasAccess (getSellerProfile w tok)
     \<longrightarrow> getRecentOrders w tok = Inl (Error ordersPermissionMessage))
   \<and> (truthy tok \<and> \<not> checkOrdersApiAccess w tok
     \<longrightarrow> getRecentOrders w tok = Inr (generateMockOrderData w))"
  using getRecentOrders_rejected [of tok w e] getRecentOrders_unchecked [of tok w]
  by auto

theorem getRecentOrders_access_denied_witness:
  "truthy (Some ''Atza|stored'')
   \<and> checkOrdersApiAccess pageDeniedNoProfileWorld (Some ''Atza|stored'')
   \<and> fst (ordersLoop pageDeniedNoProfileWorld (Some ''Atza|stored'')
            (getRestrictedDataToken pageDeniedNoProfileWorld (Some ''Atza|stored'')) 1 [] None)
        = Inl deniedError
   \<and> errStatus deniedError = Some 403
   \<and> hasAccess (getSellerProfile pageDeniedNoProfileWorld (Some ''Atza|stored'')) = False
   \<and> getRecentOrders pageDeniedNoProfileWorld (Some ''Atza|stored'')
        = Inl (Error ordersPermissionMessage)
   \<and> checkOrdersApiAccess deniedWorld (Some ''Atza|stored'') = False
   \<and> getRecentOrders deniedWorld (Some ''Atza|stored'') = Inr (generateMockOrderData deniedWorld)"
proof -
  let ?tok = "Some ''Atza|stored''"
  let ?w = pageDeniedNoProfileWorld
  have t: "truthy ?tok" by simp
  have c: "checkOrdersApiAccess ?w ?tok"
    by (simp add: checkOrdersApiAccess_def pageDeniedNoProfile_fields base_sample)
  have "ordersLoop ?w ?tok (getRestrictedDataToken ?w ?tok) (Suc 0) [] None
          = (Inl deniedError, 2)"
    by (subst ordersLoop_rejected [where base = "''https://sellingpartnerapi-eu.amazon.com''"
          and e = deniedError])
       (simp_all add: pageDeniedNoProfile_fields base_sample)
  then have l: "fst (ordersLoop ?w ?tok (getRestrictedDataToken ?w ?tok) 1 [] None)
                  = Inl deniedError"
    by simp
  have s: "errStatus deniedError = Some 403"
    by (simp add: deniedError_def)
  have p: "\<not> hasAccess (getSellerProfile ?w ?tok)"
    by (simp add: getSellerProfile_def pageDeniedNoProfile_fields base_sample)
  from getRecentOrders_access_denied [of ?tok ?w deniedError] t c l s p
  have a: "getRecentOrders ?w ?tok = Inl (Error ordersPermissionMessage)"
    by blast
  from getRecentOrders_access_denied [of ?tok deniedWorld deniedError] t denied_access
  have b: "getRecentOrders deniedWorld ?tok = Inr (generateMockOrderData deniedWorld)"
    by blast
  from t c l s p a b denied_access [of ?tok] show ?thesis by simp
qed

section \<open>The order count\<close>

lemma getOrderCount_page:
  assumes "truthy tok" and "checkOrdersApiAccess w tok"
    and "getBaseUrl (config w) = Inr base"
    and "ordersEndpoint w 1 (base @ ''/orders/v0/orders'')
           (bearerHeaders tok (orElse (getRestrictedDataToken w tok) tok)) (countParams w) = Inr r"
  shows "getOrderCount w tok = Inr (length (responseOrders r))"
  using assms by (simp add: getOrderCount_def orderCountTry_def)

text \<open>
  Claim C7 as stated fails: \<open>getOrderCount\<close> counts the orders of one request of its own.
  For an upstream that answers every request with 50 orders and a cursor the count is 50
  while the list of \<open>getRecentOrders\<close> has 200 entries.
\<close>

theorem getOrderCount_differs_from_list:
  "getOrderCount (pagedWorld 50) (Some ''Atza|stored'') = Inr 50
   \<and> getRecentOrders (pagedWorld 50) (Some ''Atza|stored'')
        = Inr (replicate 200 (formatOrder sampleRawOrder))
   \<and> length (replicate 200 (formatOrder sampleRawOrder)) \<noteq> 50"
proof -
  have "getOrderCount (pagedWorld 50) (Some ''Atza|stored'')
          = Inr (length (responseOrders
              (Some \<lparr>Orders = replicate 50 sampleRawOrder, NextToken = Some ''cursor''\<rparr>)))"
    by (rule getOrderCount_page [OF _ paged_access base_paged]) (simp_all add: paged_endpoint)
  moreover have "getRecentOrders (pagedWorld 50) (Some ''Atza|stored'')
          = Inr (map formatOrder (replicate 200 sampleRawOrder))"
    by (rule getRecentOrders_listing) (simp_all add: paged_access paged_fifty)
  ultimately show ?thesis by simp
qed

text \<open>
  Claim C7, as the code has it. After the same access check, \<open>getOrderCount\<close> sends one
  order-listing request over the same 30-day window (up to 100 results, no cursor) and
  returns the number of orders on that page; it does not page and does not call
  \<open>getRecentOrders\<close>. The count equals the length of the list of \<open>getRecentOrders\<close>
  when the upstream gives the first page request of \<open>getRecentOrders\<close> the same answer and
  that answer carries no cursor.
\<close>

theorem getOrderCount_single_page:
  assumes "truthy tok" and "checkOrdersApiAccess w tok"
    and "getBaseUrl (config w) = Inr base"
    and "ordersEndpoint w 1 (base @ ''/orders/v0/orders'')
           (bearerHeaders tok (orElse (getRestrictedDataToken w tok) tok)) (countParams w) = Inr r"
  shows "getOrderCount w tok = Inr (length (responseOrders r))
       \<and> (ordersEndpoint w 1 (base @ ''/orders/v0/orders'')
             (bearerHeaders tok (orElse (getRestrictedDataToken w tok) tok)) (pageParams w None)
            = Inr r \<and> \<not> truthy (responseNextToken r)
          \<longrightarrow> getRecentOrders w tok = Inr (map formatOrder (responseOrders r)))"
proof (intro conjI impI)
  show "getOrderCount w tok = Inr (length (responseOrders r))"
    using assms by (rule getOrderCount_page)
next
  assume h: "ordersEndpoint w 1 (base @ ''/orders/v0/orders'')
             (bearerHeaders tok (orElse (getRestrictedDataToken w tok) tok)) (pageParams w None)
            = Inr r \<and> \<not> truthy (responseNextToken r)"
  have "ordersLoop w tok (getRestrictedDataToken w tok) 1 [] None
          = (Inr (responseOrders r), Suc 1)"
  proof (cases "responseOrders r = []")
    case True
    with h ordersLoop_break [OF assms(3), of 1 tok "getRestrictedDataToken w tok" None r "[]"]
    show ?thesis by simp
  next
    case False
    with h ordersLoop_stop [OF assms(3), of 1 tok "getRestrictedDataToken w tok" None r "[]"]
    show ?thesis by simp
  qed
  then show "getRecentOrders w tok = Inr (map formatOrder (responseOrders r))"
    using getRecentOrders_listing [OF assms(1,2), of "responseOrders r"] by simp
qed

theorem getOrderCount_single_page_witness:
  "truthy (Some ''Atza|stored'')
   \<and> checkOrdersApiAccess singlePageWorld (Some ''Atza|stored'')
   \<and> getBaseUrl (config singlePageWorld) = Inr ''https://sellingpartnerapi-eu.amazon.com''
   \<and> ordersEndpoint singlePageWorld
        = (\<lambda>n url h p. Inr (Some \<lparr>Orders = replicate 3 sampleRawOrder, NextToken = None\<rparr>))
   \<and> getOrderCount singlePageWorld (Some ''Atza|stored'') = Inr 3
   \<and> getRecentOrders singlePageWorld (Some ''Atza|stored'')
        = Inr (replicate 3 (formatOrder sampleRawOrder))"
proof -
  let ?tok = "Some ''Atza|stored''"
  let ?r = "Some \<lparr>Orders = replicate 3 sampleRawOrder, NextToken = None\<rparr>"
  have e: "ordersEndpoint singlePageWorld = (\<lambda>n url h p. Inr ?r)"
    by (simp add: singlePageWorld_def)
  have b: "getBaseUrl (config singlePageWorld) = Inr ''https://sellingpartnerapi-eu.amazon.com''"
    by (simp add: singlePageWorld_def sampleWorld_def base_sample)
  have t: "truthy ?tok" by simp
  have c: "checkOrdersApiAccess singlePageWorld ?tok"
    by (simp add: checkOrdersApiAccess_def b e)
  have q: "ordersEndpoint singlePageWorld 1
             (''https://sellingpartnerapi-eu.amazon.com'' @ ''/orders/v0/orders'')
             (bearerHeaders ?tok (orElse (getRestrictedDataToken singlePageWorld ?tok) ?tok))
             (countParams singlePageWorld) = Inr ?r"
    by (simp add: e)
  have q': "ordersEndpoint singlePageWorld 1
             (''https://sellingpartnerapi-eu.amazon.com'' @ ''/orders/v0/orders'')
             (bearerHeaders ?tok (orElse (getRestrictedDataToken singlePageWorld ?tok) ?tok))
             (pageParams singlePageWorld None) = Inr ?r"
    by (simp add: e)
  have n: "\<not> truthy (responseNextToken ?r)"
    by (simp add: orElse_def)
  from getOrderCount_single_page [OF t c b q] q' n
  have "getOrderCount singlePageWorld ?tok = Inr (length (responseOrders ?r))"
    and "getRecentOrders singlePageWorld ?tok = Inr (map formatOrder (responseOrders ?r))"
    by blast+
  with t c b e show ?thesis by simp
qed

section \<open>Refresh calls of one caller and of several\<close>

lemma ensureBegin_not_Waiting: "ensureBegin w u \<noteq> Waiting"
  by (simp add: ensureBegin_def split: option.splits)

lemma ensureBegin_done:
  assumes "ensureBegin w u = Done r"
  shows "ensureValidAccessToken w u
           = \<lparr>returned = r, userAfter = u, refreshCalls = [], saveCalls = []\<rparr>"
proof (cases "amazonAuth u")
  case None
  with assms show ?thesis
    by (simp add: ensureBegin_def ensureValidAccessToken_def)
next
  case (Some a)
  with assms show ?thesis
    by (simp add: ensureBegin_def ensureValidAccessToken_def split: if_splits)
qed

lemma ensureBegin_refresh:
  assumes "ensureBegin w u = Refreshing u' a"
  shows "u' = u" and "amazonAuth u = Some a" and "truthy (accessToken a)"
    and "expiring (now w) (tokenExpiresAt a)" and "truthy (refreshToken a)"
proof -
  obtain b where b: "amazonAuth u = Some b"
    using assms by (cases "amazonAuth u") (simp_all add: ensureBegin_def)
  from assms b have "u' = u \<and> b = a \<and> truthy (accessToken a)
      \<and> expiring (now w) (tokenExpiresAt a) \<and> truthy (refreshToken a)"
    by (simp add: ensureBegin_def split: if_splits)
  with b show "u' = u" and "amazonAuth u = Some a" and "truthy (accessToken a)"
    and "expiring (now w) (tokenExpiresAt a)" and "truthy (refreshToken a)"
    by simp_all
qed

lemma ensureResume_outcome:
  assumes "ensureBegin w u = Refreshing u a"
  shows "returned (ensureValidAccessToken w u) = fst (ensureResume w u a)"
    and "refreshCalls (ensureValidAccessToken w u) = [refreshToken a]"
    and "snd (ensureResume w u a)
           = (if isl (returned (ensureValidAccessToken w u)) then None
              else Some (userAfter (ensureValidAccessToken w u)))"
  using ensureBegin_refresh [OF assms]
  by (simp_all add: ensureValidAccessToken_def ensureResume_def Let_def
      split: sum.splits option.splits)

text \<open>One caller alone: the two stretches make up the function.\<close>

lemma single_caller:
  "callers (run w [0, 0] (initial 1 u)) = [Done (returned (ensureValidAccessToken w u))]
   \<and> issued (run w [0, 0] (initial 1 u)) = refreshCalls (ensureValidAccessToken w u)
   \<and> stored (run w [0, 0] (initial 1 u))
       = (if isl (returned (ensureValidAccessToken w u)) then u
          else userAfter (ensureValidAccessToken w u))"
proof (cases "ensureBegin w u")
  case Waiting
  then show ?thesis by (simp add: ensureBegin_not_Waiting)
next
  case (Refreshing u' a)
  then have b: "ensureBegin w u = Refreshing u a"
    using ensureBegin_refresh(1) by simp
  obtain r saved where rs: "ensureResume w u a = (r, saved)"
    by (cases "ensureResume w u a")
  show ?thesis
    using ensureResume_outcome [OF b] rs
    by (simp add: run_def initial_def step_def b split: if_splits)
next
  case (Done r)
  show ?thesis
    using ensureBegin_done [OF Done]
    by (cases r) (simp_all add: run_def initial_def step_def Done)
qed

lemma ensureBegin_refreshing:
  assumes "amazonAuth u = Some a" "truthy (accessToken a)" "truthy (refreshToken a)"
    "expiring (now w) (tokenExpiresAt a)"
  shows "ensureBegin w u = Refreshing u a"
  using assms by (simp add: ensureBegin_def)

lemma all_begin:
  assumes b: "ensureBegin w u = Refreshing u a"
  shows "k \<le> n \<Longrightarrow> run w [0..<k] (initial n u)
           = \<lparr>stored = u,
              callers = replicate k (Refreshing u a) @ replicate (n - k) Waiting,
              issued = replicate k (refreshToken a)\<rparr>"
proof (induction k)
  case 0
  then show ?case by (simp add: run_def initial_def)
next
  case (Suc k)
  then have k: "k < n" by simp
  have st: "run w [0..<Suc k] (initial n u) = step w k (run w [0..<k] (initial n u))"
    by (simp add: run_def)
  have w: "(replicate k (Refreshing u a) @ replicate (n - k) Waiting) ! k = Waiting"
    using k by (simp add: nth_append)
  have split: "replicate (n - k) Waiting = Waiting # replicate (n - Suc k) Waiting"
    using k by (simp add: Suc_diff_Suc flip: replicate_Suc)
  have "(replicate k (Refreshing u a) @ Waiting # replicate (n - Suc k) Waiting)
          [length (replicate k (Refreshing u a)) := Refreshing u a]
      = replicate k (Refreshing u a) @ Refreshing u a # replicate (n - Suc k) Waiting"
    by (rule list_update_length)
  then have upd: "(replicate k (Refreshing u a) @ replicate (n - k) Waiting)[k := Refreshing u a]
      = replicate (Suc k) (Refreshing u a) @ replicate (n - Suc k) Waiting"
    by (simp add: split replicate_append_same)
  have len: "k < length (replicate k (Refreshing u a) @ replicate (n - k) Waiting)"
    using k by simp
  have prev: "run w [0..<k] (initial n u)
           = \<lparr>stored = u,
              callers = replicate k (Refreshing u a) @ replicate (n - k) Waiting,
              issued = replicate k (refreshToken a)\<rparr>"
    using Suc.IH k by simp
  show ?case
    unfolding st prev step_def
    by (simp only: system.simps len if_True w caller.case b upd system.update_convs)
       (simp add: replicate_append_same)
qed

lemma step_settled:
  assumes "settled s"
  shows "settled (step w i s) \<and> issued (step w i s) = issued s"
proof (cases "i < length (callers s)")
  case False
  then show ?thesis using assms by (simp add: step_def)
next
  case True
  then have "callers s ! i \<noteq> Waiting"
    using assms by (auto simp add: settled_def dest: nth_mem)
  moreover have d: "Waiting \<notin> set ((callers s)[i := Done r])" for r
    using assms set_update_subset_insert [of "callers s" i "Done r"]
    by (auto simp add: settled_def)
  ultimately show ?thesis
  proof (cases "callers s ! i")
    case Waiting
    assume "callers s ! i \<noteq> Waiting"
    with Waiting show ?thesis by simp
  next
    case (Refreshing u a)
    obtain r saved where rs: "ensureResume w u a = (r, saved)"
      by (cases "ensureResume w u a")
    show ?thesis
      using True Refreshing rs d [of r] by (simp add: step_def settled_def)
  next
    case (Done r)
    then show ?thesis using True assms by (simp add: step_def)
  qed
qed

lemma run_settled:
  "settled s \<Longrightarrow> issued (run w schedule s) = issued s"
  unfolding run_def
proof (induction schedule arbitrary: s)
  case Nil
  then show ?case by simp
next
  case (Cons i schedule)
  then show ?case using step_settled [of s w i] by simp
qed

lemma concurrent:
  assumes b: "ensureBegin w u = Refreshing u a"
  shows "issued (run w ([0..<n] @ rest) (initial n u)) = replicate n (refreshToken a)"
proof -
  have "run w ([0..<n] @ rest) (initial n u) = run w rest (run w [0..<n] (initial n u))"
    by (simp add: run_def)
  moreover have "settled (run w [0..<n] (initial n u))"
    by (simp add: all_begin [OF b] settled_def)
  ultimately show ?thesis
    by (simp add: run_settled all_begin [OF b])
qed

text \<open>
  Claim C1, as the code has it. For a connected credential with a refresh token and
  \<open>now > tokenExpiresAt - 5 min\<close>, one call of \<open>ensureValidAccessToken\<close> makes exactly
  one refresh call. Nothing serialises callers: when \<open>n\<close> callers for the credential all
  run their check before any of them has stored a refreshed token, \<open>n\<close> refresh calls
  are made, whatever the order in which the answers are handled afterwards.
\<close>

theorem ensureValidAccessToken_refresh_per_caller:
  assumes "amazonAuth u = Some a"
    and "truthy (accessToken a)"
    and "truthy (refreshToken a)"
    and "tokenExpiresAt a = Some expiry"
    and "expiry - 5 * 60 * 1000 < now w"
  shows "refreshCalls (ensureValidAccessToken w u) = [refreshToken a]
       \<and> issued (run w ([0..<n] @ rest) (initial n u)) = replicate n (refreshToken a)"
proof -
  have e: "expiring (now w) (tokenExpiresAt a)"
    using assms(4,5) by (simp add: bufferTime_def)
  have b: "ensureBegin w u = Refreshing u a"
    using assms(1,2,3) e by (rule ensureBegin_refreshing)
  from ensureResume_outcome(2) [OF b] concurrent [OF b] show ?thesis
    by simp
qed

lemma stale_begin: "ensureBegin sampleWorld staleUser = Refreshing staleUser staleAuth"
  by (rule ensureBegin_refreshing)
     (simp_all add: staleUser_def staleAuth_def sampleAuth_def sampleWorld_def bufferTime_def)

theorem ensureValidAccessToken_refresh_per_caller_witness:
  "amazonAuth staleUser = Some staleAuth
   \<and> truthy (accessToken staleAuth)
   \<and> truthy (refreshToken staleAuth)
   \<and> tokenExpiresAt staleAuth = Some 1700000100000
   \<and> 1700000100000 - 5 * 60 * 1000 < now sampleWorld
   \<and> refreshCalls (ensureValidAccessToken sampleWorld staleUser) = [Some ''Atzr|stored'']
   \<and> issued (run sampleWorld ([0..<2] @ [1, 0]) (initial 2 staleUser))
        = [Some ''Atzr|stored'', Some ''Atzr|stored'']"
proof -
  have h1: "amazonAuth staleUser = Some staleAuth"
    by (simp add: staleUser_def)
  have h2: "truthy (accessToken staleAuth)"
    by (simp add: staleAuth_def sampleAuth_def)
  have h3: "truthy (refreshToken staleAuth)"
    by (simp add: staleAuth_def sampleAuth_def)
  have h4: "tokenExpiresAt staleAuth = Some 1700000100000"
    by (simp add: staleAuth_def)
  have h5: "1700000100000 - 5 * 60 * 1000 < now sampleWorld"
    by (simp add: sampleWorld_def)
  have rt: "refreshToken staleAuth = Some ''Atzr|stored''"
    by (simp add: staleAuth_def sampleAuth_def)
  have two: "replicate 2 (Some ''Atzr|stored'') = [Some ''Atzr|stored'', Some ''Atzr|stored'']"
    by (simp add: numeral_2_eq_2)
  from ensureValidAccessToken_refresh_per_caller [OF h1 h2 h3 h4 h5, of 2 "[1, 0]"]
  have "refreshCalls (ensureValidAccessToken sampleWorld staleUser) = [Some ''Atzr|stored'']"
    and "issued (run sampleWorld ([0..<2] @ [1, 0]) (initial 2 staleUser))
           = [Some ''Atzr|stored'', Some ''Atzr|stored'']"
    by (simp_all only: rt two)
  with h1 h2 h3 h4 h5 show ?thesis by blast
qed

lemma stale_resume:
  "ensureResume sampleWorld staleUser staleAuth = (Inr (Some ''Atza|fresh''), Some refreshedUser)"
proof -
  have "refreshToken staleAuth = Some ''Atzr|stored''"
    by (simp add: staleAuth_def sampleAuth_def)
  then have "refreshAccessToken sampleWorld (refreshToken staleAuth) = Inr sampleBundle"
    by (simp add: refresh_sample)
  moreover have "saveUser sampleWorld x = None" for x
    by (simp add: sampleWorld_def)
  moreover have "accessToken (applyTokenData sampleWorld staleAuth sampleBundle)
                   = Some ''Atza|fresh''"
    by (simp add: applyTokenData_def sampleBundle_def)
  ultimately show ?thesis
    by (simp add: ensureResume_def Let_def refreshedUser_def)
qed

lemma refreshed_begin:
  "ensureBegin sampleWorld refreshedUser = Done (Inr (Some ''Atza|fresh''))"
proof -
  have "applyTokenData sampleWorld staleAuth sampleBundle
          = staleAuth\<lparr>accessToken := Some ''Atza|fresh'',
                        tokenExpiresAt := Some 1700003600400\<rparr>"
    by (simp add: applyTokenData_def sampleBundle_def sampleWorld_def)
  then show ?thesis
    by (simp add: ensureBegin_def refreshedUser_def staleAuth_def sampleAuth_def
        bufferTime_def, simp add: sampleWorld_def)
qed

lemma boundary_calls:
  "refreshCalls (ensureValidAccessToken sampleWorld boundaryUser) = []"
  by (simp add: ensureValidAccessToken_def boundaryUser_def boundaryAuth_def sampleAuth_def
      bufferTime_def, simp add: sampleWorld_def)

lemma interleaved_run:
  "issued (run sampleWorld [0, 1, 0, 1] (initial 2 staleUser))
     = [Some ''Atzr|stored'', Some ''Atzr|stored'']"
proof -
  have "refreshToken staleAuth = Some ''Atzr|stored''"
    by (simp add: staleAuth_def sampleAuth_def)
  then show ?thesis
    by (simp add: run_def initial_def step_def stale_begin stale_resume numeral_2_eq_2)
qed

lemma serial_run:
  "issued (run sampleWorld [0, 0, 1, 1] (initial 2 staleUser)) = [Some ''Atzr|stored'']"
proof -
  have "refreshToken staleAuth = Some ''Atzr|stored''"
    by (simp add: staleAuth_def sampleAuth_def)
  then show ?thesis
    by (simp add: run_def initial_def step_def stale_begin stale_resume refreshed_begin
        numeral_2_eq_2)
qed

text \<open>
  Claim C1 as stated fails twice. A credential that expires in exactly five minutes is
  not refreshed at all (the comparison of line 25 is strict). And two callers that both
  check the stale credential before either has stored its new token make two refresh
  calls; run one after the other they make one.
\<close>

theorem ensureValidAccessToken_not_single_flight:
  "tokenExpiresAt boundaryAuth = Some (now sampleWorld + 5 * 60 * 1000)
   \<and> truthy (accessToken boundaryAuth) \<and> truthy (refreshToken boundaryAuth)
   \<and> refreshCalls (ensureValidAccessToken sampleWorld boundaryUser) = []
   \<and> issued (run sampleWorld [0, 1, 0, 1] (initial 2 staleUser))
        = [Some ''Atzr|stored'', Some ''Atzr|stored'']
   \<and> issued (run sampleWorld [0, 0, 1, 1] (initial 2 staleUser)) = [Some ''Atzr|stored'']"
proof -
  have "tokenExpiresAt boundaryAuth = Some (now sampleWorld + 5 * 60 * 1000)"
    by (simp add: boundaryAuth_def sampleWorld_def)
  moreover have "truthy (accessToken boundaryAuth) \<and> truthy (refreshToken boundaryAuth)"
    by (simp add: boundaryAuth_def sampleAuth_def)
  ultimately show ?thesis
    using boundary_calls interleaved_run serial_run by blast
qed

section \<open>Round trip of the OAuth state\<close>

lemma b64value_b64char: "n < 64 \<Longrightarrow> b64value (b64char n) = Some n"
  by (auto simp add: b64value_def b64char_def Let_def)

lemma b64char_not_pad: "n < 64 \<Longrightarrow> b64char n = CHR ''='' \<Longrightarrow> False"
proof -
  assume n: "n < 64" and "b64char n = CHR ''=''"
  then have "b64value (b64char n) = None"
    by (simp add: b64value_def)
  with b64value_b64char [OF n] show False by simp
qed

lemma sextets_small: "\<forall>x \<in> set bs. x < 256 \<Longrightarrow> \<forall>s \<in> set (sextets bs). s < 64"
  by (induction bs rule: sextets.induct) (auto simp add: div_less_iff_less_mult)

lemma octets_sextets: "\<forall>x \<in> set bs. x < 256 \<Longrightarrow> octets (sextets bs) = bs"
  apply (induction bs rule: sextets.induct) 
     apply (auto simp add: )
  done

lemma map_filter_b64: "\<forall>s \<in> set ss. s < 64 \<Longrightarrow> List.map_filter b64value (map b64char ss) = ss"
  by (induction ss) (simp_all add: List.map_filter_simps b64value_b64char)

lemma takeWhile_b64:
  "\<forall>s \<in> set ss. s < 64 \<Longrightarrow>
   takeWhile (\<lambda>c. c \<noteq> CHR ''='') (map b64char ss @ replicate k (CHR ''='')) = map b64char ss"
proof -
  assume a: "\<forall>s \<in> set ss. s < 64"
  have "\<forall>c \<in> set (map b64char ss). c \<noteq> CHR ''=''"
    using a b64char_not_pad by auto
  then show ?thesis
    by (cases k) (simp_all add: takeWhile_append2 takeWhile_tail)
qed

lemma fromBase64_toBase64: "fromBase64 (toBase64 bytes) = bytes"
proof -
  have small: "\<forall>x \<in> set (map of_char bytes). x < (256::nat)"
    by simp
  then have six: "\<forall>s \<in> set (sextets (map of_char bytes)). s < 64"
    by (rule sextets_small)
  show ?thesis
    unfolding fromBase64_def toBase64_def
    by (simp add: takeWhile_b64 [OF six] map_filter_b64 [OF six] octets_sextets [OF small]
        comp_def)
qed

lemma char_of_of_char_nat: "char_of (of_char c :: nat) = c"
  by simp

lemma hexValue_hexDigit: "k < 16 \<Longrightarrow> hexValue (hexDigit k) = Some k"
  by (auto simp add: hexValue_def hexDigit_def Let_def)

lemma hex4_control:
  assumes "n < 32"
  shows "hex4 (CHR ''0'') (CHR ''0'') (hexDigit (n div 16)) (hexDigit (n mod 16)) = Some n"
proof -
  have "hexValue (CHR ''0'') = Some 0"
    by (simp add: hexValue_def)
  moreover have "hexValue (hexDigit (n div 16)) = Some (n div 16)"
    using assms by (intro hexValue_hexDigit) simp
  moreover have "hexValue (hexDigit (n mod 16)) = Some (n mod 16)"
    by (intro hexValue_hexDigit) simp
  ultimately show ?thesis
    by (simp add: hex4_def)
qed

lemma parseChars_quoteChar:
  "parseChars (quoteChar c @ t) = consResult c (parseChars t)"
proof -
  define n where "n = (of_char c :: nat)"
  have c: "c = char_of n"
    by (simp add: n_def)
  consider (named) "n \<in> {8, 9, 10, 12, 13, 34, 92}"
    | (control) "n \<notin> {8, 9, 10, 12, 13, 34, 92}" "n < 32"
    | (plain) "n \<notin> {8, 9, 10, 12, 13, 34, 92}" "\<not> n < 32"
    by blast
  then show ?thesis
  proof cases
    case named
    have "(of_char (char_of (34::nat)) :: nat) = of_char dquote"
      and "(of_char (char_of (92::nat)) :: nat) = of_char backslash"
      by simp_all
    then have "char_of (34::nat) = dquote" "char_of (92::nat) = backslash"
      by (simp_all only: of_char_eq_iff)
    with named show ?thesis
      unfolding c
      by (auto simp add: quoteChar_def unescape_def)
  next
    case control
    have "quoteChar c = [backslash, CHR ''u'', CHR ''0'', CHR ''0'',
                         hexDigit (n div 16), hexDigit (n mod 16)]"
      using control by (simp add: quoteChar_def Let_def flip: n_def)
    then show ?thesis
      using control(2) hex4_control [OF control(2)] c by simp
  next
    case plain
    have q: "quoteChar c = [c]"
      using plain by (simp add: quoteChar_def Let_def flip: n_def)
    have "c \<noteq> dquote" "c \<noteq> backslash"
      using plain(1) by (auto simp add: n_def)
    then show ?thesis
      using plain(2) by (simp add: q flip: n_def)
  qed
qed

lemma parseChars_quoted:
  "parseChars (concat (map quoteChar s) @ dquote # rest) = Some (s, rest)"
  by (induction s) (simp_all add: parseChars_quoteChar)

lemma isDigit_digit: "d < 10 \<Longrightarrow> isDigit (char_of (48 + d :: nat))"
  by (simp add: isDigit_def)

lemma digitsOf_digits: "\<forall>c \<in> set (digitsOf n). isDigit c"
proof (induction n rule: digitsOf.induct)
  case (1 n)
  show ?case
  proof (cases "n < 10")
    case True
    then show ?thesis
      by (subst digitsOf.simps) (simp add: isDigit_digit)
  next
    case False
    with "1.IH" show ?thesis
      by (subst digitsOf.simps) (simp add: isDigit_digit)
  qed
qed

lemma digitsOf_nonempty: "digitsOf n \<noteq> []"
  by (subst digitsOf.simps) simp

lemma digitsValue_snoc:
  "digitsValue (ds @ [c]) = digitsValue ds * 10 + (of_char c - 48)"
  by (simp add: digitsValue_def)

lemma digitsValue_digitsOf: "digitsValue (digitsOf n) = n"
proof (induction n rule: digitsOf.induct)
  case (1 n)
  show ?case
  proof (cases "n < 10")
    case True
    then show ?thesis
      by (subst digitsOf.simps) (simp add: digitsValue_def)
  next
    case False
    with "1.IH" show ?thesis
      by (subst digitsOf.simps) (simp add: digitsValue_snoc)
  qed
qed

lemma digitsOf_leading: "0 < n \<Longrightarrow> hd (digitsOf n) \<noteq> CHR ''0''"
proof (induction n rule: digitsOf.induct)
  case (1 n)
  show ?case
  proof (cases "n < 10")
    case True
    have "char_of (48 + n) \<noteq> CHR ''0''"
    proof
      assume "char_of (48 + n) = CHR ''0''"
      then have "(of_char (char_of (48 + n)) :: nat) = of_char (CHR ''0'')"
        by (rule arg_cong)
      with True "1.prems" show False by simp
    qed
    with True show ?thesis
      by (subst digitsOf.simps) simp
  next
    case False
    then have "0 < n div 10" by simp
    with "1.IH" [OF False] False show ?thesis
      by (subst digitsOf.simps) (simp add: digitsOf_nonempty)
  qed
qed

lemma digitsOf_single: "1 < length (digitsOf n) \<Longrightarrow> 0 < n"
  by (subst (asm) digitsOf.simps) (simp split: if_splits)

lemma not_digit_minus: "isDigit c \<Longrightarrow> c \<noteq> CHR ''-''"
  by (auto simp add: isDigit_def)

lemma parseNumber_digits:
  assumes "rest \<noteq> []" and "\<not> isDigit (hd rest)"
    and "hd rest \<notin> {CHR ''.'', CHR ''e'', CHR ''E''}"
  shows "parseNumber (numberToString i @ rest) = Some (i, rest)"
proof -
  obtain r rs where rest: "rest = r # rs"
    using assms(1) by (cases rest) auto
  have nd: "\<not> isDigit r" and ne: "r \<notin> {CHR ''.'', CHR ''e'', CHR ''E''}"
    using assms(2,3) rest by simp_all
  have tw: "takeWhile isDigit (digitsOf n @ r # rs) = digitsOf n" for n
    using digitsOf_digits [of n] nd by (simp add: takeWhile_tail)
  have dw: "dropWhile isDigit (digitsOf n @ r # rs) = r # rs" for n
    using digitsOf_digits [of n] nd by (simp add: dropWhile_append3)
  have lead: "\<not> (1 < length (digitsOf n) \<and> hd (digitsOf n) = CHR ''0'')" for n
    using digitsOf_leading [of n] digitsOf_single [of n] by blast
  show ?thesis
  proof (cases "i < 0")
    case True
    then have "numberToString i @ rest = CHR ''-'' # digitsOf (nat (- i)) @ r # rs"
      by (simp add: numberToString_def rest)
    then show ?thesis
      using True lead [of "nat (- i)"] ne
      by (simp add: parseNumber_def Let_def tw dw digitsOf_nonempty digitsValue_digitsOf rest)
  next
    case False
    have "hd (digitsOf (nat i)) \<noteq> CHR ''-''"
      using digitsOf_digits [of "nat i"] digitsOf_nonempty [of "nat i"] not_digit_minus
      by (cases "digitsOf (nat i)") auto
    then have h: "hd (digitsOf (nat i) @ r # rs) \<noteq> CHR ''-''"
      using digitsOf_nonempty [of "nat i"] by simp
    have "numberToString i @ rest = digitsOf (nat i) @ r # rs"
      using False by (simp add: numberToString_def rest)
    then show ?thesis
      using False lead [of "nat i"] ne h
      by (simp add: parseNumber_def Let_def tw dw digitsOf_nonempty digitsValue_digitsOf rest)
  qed
qed

lemma parseValue_string:
  "parseValue (quoteJSONString s @ rest) = Some (JString s, rest)"
  by (simp add: parseValue_def quoteJSONString_def parseChars_quoted)

lemma numberToString_head: "\<exists>c cs. numberToString i = c # cs \<and> c \<noteq> dquote"
proof (cases "i < 0")
  case True
  then show ?thesis by (simp add: numberToString_def)
next
  case False
  obtain c cs where d: "digitsOf (nat i) = c # cs"
    using digitsOf_nonempty [of "nat i"] by (cases "digitsOf (nat i)") auto
  then have "isDigit c"
    using digitsOf_digits [of "nat i"] by simp
  then have "c \<noteq> dquote"
    by (auto simp add: isDigit_def)
  with False d show ?thesis by (simp add: numberToString_def)
qed

lemma parseValue_number:
  "parseValue (numberToString i @ ''}'') = Some (JNumber i, ''}'')"
proof -
  obtain c cs where n: "numberToString i = c # cs" "c \<noteq> dquote"
    using numberToString_head by blast
  have "parseNumber (numberToString i @ ''}'') = Some (i, ''}'')"
    by (rule parseNumber_digits) (simp_all add: isDigit_def)
  then show ?thesis
    using n by (simp add: parseValue_def)
qed

lemma parseMembers_last:
  "parseMembers (quoteJSONString k @ '':'' @ numberToString i @ ''}'')
     = Some ([(k, JNumber i)], [])"
proof -
  have "parseMembers (dquote # concat (map quoteChar k) @ dquote # CHR '':'' # numberToString i @ ''}'')
     = Some ([(k, JNumber i)], [])"
    by (subst parseMembers.simps) (simp add: parseChars_quoted parseValue_number)
  then show ?thesis by (simp add: quoteJSONString_def)
qed

lemma parseMembers_state:
  "parseMembers (quoteJSONString k1 @ '':'' @ quoteJSONString s @ '','' @
                 quoteJSONString k2 @ '':'' @ numberToString i @ ''}'')
     = Some ([(k1, JString s), (k2, JNumber i)], [])"
proof -
  let ?tail = "quoteJSONString k2 @ '':'' @ numberToString i @ ''}''"
  have "parseMembers (dquote # concat (map quoteChar k1) @ dquote # CHR '':'' #
                      quoteJSONString s @ CHR '','' # ?tail)
     = Some ([(k1, JString s), (k2, JNumber i)], [])"
    using parseMembers_last [of k2 i]
    by (subst parseMembers.simps) (simp add: parseChars_quoted parseValue_string)
  then show ?thesis by (simp add: quoteJSONString_def)
qed

lemma parseJSON_stringifyState:
  "parseJSON (stringifyState userId timestamp)
     = Some (JObject [(''userId'', JString userId), (''timestamp'', JNumber timestamp)])"
proof -
  let ?members = "quoteJSONString ''userId'' @ '':'' @ quoteJSONString userId @ '','' @
                  quoteJSONString ''timestamp'' @ '':'' @ numberToString timestamp @ ''}''"
  have "?members \<noteq> ''}''"
    by (simp add: quoteJSONString_def)
  then show ?thesis
    using parseMembers_state [of "''userId''" userId "''timestamp''" timestamp]
    by (simp add: parseJSON_def stringifyState_def)
qed

lemma sextets_nonempty: "bs \<noteq> [] \<Longrightarrow> sextets bs \<noteq> []"
  by (cases bs rule: sextets.cases) auto

lemma toBase64_nonempty: "s \<noteq> [] \<Longrightarrow> toBase64 s \<noteq> []"
  using sextets_nonempty [of "map of_char s"] by (simp add: toBase64_def)

text \<open>
  Claim C10. For every user identifier the \<^verbatim>\<open>/auth-url\<close> route accepts and every
  timestamp, the state it builds is read back by the \<^verbatim>\<open>/callback\<close> route (called with an
  authorization code and without an error) as that same identifier, which is the one
  handed to \<^verbatim>\<open>User.findById\<close>.
\<close>

theorem oauth_state_round_trip:
  assumes "authUrlState userId timestamp = Inr state"
    and "truthy (orElse code spapi_oauth_code)"
  shows "\<exists>u. userId = Some u
           \<and> callbackUserId frontendUrl code spapi_oauth_code (Some state) None
               = Inr (JString u)"
proof -
  from assms(1) obtain u where u: "userId = Some u" "u \<noteq> []"
    and st: "state = toBase64 (stringifyState u timestamp)"
    by (auto simp add: authUrlState_def split: option.splits if_splits)
  have "stringifyState u timestamp \<noteq> []"
    by (simp add: stringifyState_def)
  then have "truthy (Some state)"
    by (simp add: st toBase64_nonempty)
  moreover have "parseJSON (fromBase64 (jsText (Some state)))
      = Some (JObject [(''userId'', JString u), (''timestamp'', JNumber timestamp)])"
    by (simp add: st fromBase64_toBase64 parseJSON_stringifyState)
  ultimately have "callbackUserId frontendUrl code spapi_oauth_code (Some state) None
               = Inr (JString u)"
    using assms(2) u(2) by (simp add: callbackUserId_def)
  with u(1) show ?thesis by simp
qed

lemma digits_sample: "digitsOf 1700000000000 = ''1700000000000''"
  by (simp add: digitsOf.simps char_of_eq_iff)

lemma stringify_sample:
  "stringifyState ''665f1c2ab7e4f30012ab34cd'' 1700000000000
     = [CHR ''{'', dquote] @ ''userId'' @ [dquote, CHR '':'', dquote] @
       ''665f1c2ab7e4f30012ab34cd'' @ [dquote, CHR '','', dquote] @ ''timestamp'' @
       [dquote, CHR '':''] @ ''1700000000000}''"
  by (simp add: stringifyState_def quoteJSONString_def quoteChar_def numberToString_def
      digits_sample)

lemma state_sample:
  "toBase64 (stringifyState ''665f1c2ab7e4f30012ab34cd'' 1700000000000)
     = ''eyJ1c2VySWQiOiI2NjVmMWMyYWI3ZTRmMzAwMTJhYjM0Y2QiLCJ0aW1lc3RhbXAiOjE3MDAwMDAwMDAwMDB9''"
  unfolding stringify_sample by (simp add: toBase64_def b64char_def char_of_eq_iff)

theorem oauth_state_round_trip_witness:
  "authUrlState (Some ''665f1c2ab7e4f30012ab34cd'') 1700000000000
     = Inr ''eyJ1c2VySWQiOiI2NjVmMWMyYWI3ZTRmMzAwMTJhYjM0Y2QiLCJ0aW1lc3RhbXAiOjE3MDAwMDAwMDAwMDB9''
   \<and> truthy (orElse None (Some ''ANxyzAuthCode''))
   \<and> callbackUserId (Some ''https://app.example'') None (Some ''ANxyzAuthCode'')
         (Some ''eyJ1c2VySWQiOiI2NjVmMWMyYWI3ZTRmMzAwMTJhYjM0Y2QiLCJ0aW1lc3RhbXAiOjE3MDAwMDAwMDAwMDB9'')
         None
       = Inr (JString ''665f1c2ab7e4f30012ab34cd'')"
proof -
  let ?state =
    "''eyJ1c2VySWQiOiI2NjVmMWMyYWI3ZTRmMzAwMTJhYjM0Y2QiLCJ0aW1lc3RhbXAiOjE3MDAwMDAwMDAwMDB9''"
  have h1: "authUrlState (Some ''665f1c2ab7e4f30012ab34cd'') 1700000000000 = Inr ?state"
    by (simp add: authUrlState_def state_sample)
  have h2: "truthy (orElse None (Some ''ANxyzAuthCode''))"
    by (simp add: orElse_def)
  from oauth_state_round_trip [OF h1 h2, of "Some ''https://app.example''"]
  have "callbackUserId (Some ''https://app.example'') None (Some ''ANxyzAuthCode'')
          (Some ?state) None = Inr (JString ''665f1c2ab7e4f30012ab34cd'')"
    by auto
  with h1 h2 show ?thesis by blast
qed

section \<open>The restricted-data token is best effort\<close>

text \<open>The answers of the order endpoint are all a call takes from that endpoint.\<close>

lemma mockOrder_endpoint: "mockOrder (w\<lparr>ordersEndpoint := f\<rparr>) k = mockOrder w k"
  by (simp add: mockOrder_def daysBack_def utcOf_def localTime_def)

lemma mockLoop_endpoint:
  "mockLoop (w\<lparr>ordersEndpoint := f\<rparr>) i k acc = mockLoop w i k acc"
proof (induction w i k acc rule: mockLoop.induct)
  case (1 w i k acc)
  show ?case
  proof (cases "i < floorTimes (random w k) 20 + 5")
    case True
    with "1.IH" [OF True] show ?thesis
      by (subst mockLoop.simps, subst (2) mockLoop.simps) (simp add: mockOrder_endpoint)
  next
    case False
    then show ?thesis
      by (subst mockLoop.simps, subst (2) mockLoop.simps) simp
  qed
qed

lemma generateMockOrderData_endpoint:
  "generateMockOrderData (w\<lparr>ordersEndpoint := f\<rparr>) = generateMockOrderData w"
  by (simp add: generateMockOrderData_def mockLoop_endpoint)

lemma params_endpoint:
  "pageParams (w\<lparr>ordersEndpoint := f\<rparr>) nt = pageParams w nt"
  "accessCheckParams (w\<lparr>ordersEndpoint := f\<rparr>) = accessCheckParams w"
  by (simp_all add: pageParams_def accessCheckParams_def daysBack_def utcOf_def localTime_def)

lemma ordersLoop_endpoint:
  "\<forall>n url p. f n url (bearerHeaders tok (orElse rt tok)) p
               = ordersEndpoint w n url (bearerHeaders tok (orElse rt tok)) p
   \<Longrightarrow> ordersLoop (w\<lparr>ordersEndpoint := f\<rparr>) tok rt n acc nt = ordersLoop w tok rt n acc nt"
proof (induction w tok rt n acc nt rule: ordersLoop.induct)
  case (1 w tok rt n allOrders nt)
  let ?w = "w\<lparr>ordersEndpoint := f\<rparr>"
  note agree = "1.prems"
  show ?case
  proof (cases "getBaseUrl (config w)")
    case (Inl e)
    then show ?thesis by (simp add: ordersLoop_no_base)
  next
    case (Inr base)
    then have base': "getBaseUrl (config ?w) = Inr base" by simp
    have same: "ordersEndpoint ?w n (base @ ''/orders/v0/orders'')
                  (bearerHeaders tok (orElse rt tok)) (pageParams ?w nt)
                = ordersEndpoint w n (base @ ''/orders/v0/orders'')
                  (bearerHeaders tok (orElse rt tok)) (pageParams w nt)"
      using agree by (simp add: params_endpoint)
    show ?thesis
    proof (cases "ordersEndpoint w n (base @ ''/orders/v0/orders'')
                    (bearerHeaders tok (orElse rt tok)) (pageParams w nt)")
      case (Inl e)
      with same show ?thesis
        by (simp add: ordersLoop_rejected [OF Inr] ordersLoop_rejected [OF base'])
    next
      case r: (Inr response)
      with same have r': "ordersEndpoint ?w n (base @ ''/orders/v0/orders'')
                  (bearerHeaders tok (orElse rt tok)) (pageParams ?w nt) = Inr response"
        by simp
      consider (break) "responseOrders response = []"
        | (continue) "responseOrders response \<noteq> []" "truthy (responseNextToken response)"
            "length allOrders + length (responseOrders response) < 200"
        | (stop) "responseOrders response \<noteq> []"
            "\<not> (truthy (responseNextToken response)
                \<and> length allOrders + length (responseOrders response) < 200)"
        by blast
      then show ?thesis
      proof cases
        case break
        then show ?thesis
          by (simp add: ordersLoop_break [OF Inr r] ordersLoop_break [OF base' r'])
      next
        case continue
        have "ordersLoop ?w tok rt (Suc n) (allOrders @ responseOrders response)
                (responseNextToken response)
              = ordersLoop w tok rt (Suc n) (allOrders @ responseOrders response)
                (responseNextToken response)"
          using "1.IH" [OF Inr r] continue agree by simp
        then show ?thesis
          by (simp add: ordersLoop_continue [OF Inr r continue]
              ordersLoop_continue [OF base' r' continue])
      next
        case stop
        then show ?thesis
          by (simp add: ordersLoop_stop [OF Inr r] ordersLoop_stop [OF base' r'])
      qed
    qed
  qed
qed

text \<open>
  Claim C8. Whatever makes the acquisition of the restricted-data token fail (the
  \<open>try\<close> block leaves with any error \<open>e\<close>: a rejected request of any status, a network
  failure, an invalid region), \<open>getRestrictedDataToken\<close> returns no token and raises
  nothing, and \<open>getRecentOrders\<close> goes on with the plain access token. \<open>H\<close> are the
  headers with the access token as bearer and as \<open>x-amz-access-token\<close>. The result of
  \<open>getRecentOrders\<close> depends on the order endpoint only through its answers to requests
  that carry \<open>H\<close>: replacing the endpoint by any \<open>f\<close> that answers those requests alike
  changes nothing. And the call does go on: when the endpoint answers the access check
  and then answers the first page request, both sent with \<open>H\<close>, with a page of orders
  without cursor, these orders are returned.
\<close>

theorem getRestrictedDataToken_best_effort:
  assumes "truthy tok"
    and "requestRestrictedDataToken w tok = Inl e"
    and "H = \<lparr>Authorization = ''Bearer '' @ jsText tok, xAmzAccessToken = tok,
              ContentType = ''application/json''\<rparr>"
  shows "getRestrictedDataToken w tok = None
       \<and> ((\<forall>n url p. f n url H p = ordersEndpoint w n url H p)
            \<longrightarrow> getRecentOrders (w\<lparr>ordersEndpoint := f\<rparr>) tok = getRecentOrders w tok)
       \<and> (getBaseUrl (config w) = Inr base
            \<and> ordersEndpoint w 0 (base @ ''/orders/v0/orders'') H (accessCheckParams w) = Inr r
            \<and> ordersEndpoint w 1 (base @ ''/orders/v0/orders'') H (pageParams w None)
                = Inr (Some page)
            \<and> Orders page \<noteq> [] \<and> \<not> truthy (NextToken page)
            \<longrightarrow> getRecentOrders w tok = Inr (map formatOrder (Orders page)))"
proof (intro conjI impI)
  show none: "getRestrictedDataToken w tok = None"
    using assms(2) by (simp add: getRestrictedDataToken_def)
  have h1: "bearerHeaders tok tok = H"
    by (simp add: bearerHeaders_def assms(3))
  have h2: "bearerHeaders tok (orElse None tok) = H"
    by (simp add: bearerHeaders_def orElse_def assms(3))
  {
    assume agree: "\<forall>n url p. f n url H p = ordersEndpoint w n url H p"
    let ?w = "w\<lparr>ordersEndpoint := f\<rparr>"
    have "requestRestrictedDataToken ?w tok = requestRestrictedDataToken w tok"
      by (auto simp add: requestRestrictedDataToken_def split: sum.splits)
    then have rdt: "getRestrictedDataToken ?w tok = None"
      using none by (simp add: getRestrictedDataToken_def)
    have chk: "checkOrdersApiAccess ?w tok = checkOrdersApiAccess w tok"
      using agree
      by (cases "getBaseUrl (config w)")
         (simp_all add: checkOrdersApiAccess_def h1 params_endpoint)
    have loop: "ordersLoop ?w tok None (Suc 0) [] None = ordersLoop w tok None (Suc 0) [] None"
      using agree by (intro ordersLoop_endpoint) (simp add: h2)
    have body: "recentOrdersTry ?w tok = recentOrdersTry w tok"
      by (simp add: recentOrdersTry_def rdt none chk loop generateMockOrderData_endpoint)
    have prof: "getSellerProfile ?w tok = getSellerProfile w tok"
      by (cases "getBaseUrl (config w)") (simp_all add: getSellerProfile_def)
    show "getRecentOrders ?w tok = getRecentOrders w tok"
      unfolding getRecentOrders_def body prof generateMockOrderData_endpoint ..
  }
  {
    assume a: "getBaseUrl (config w) = Inr base
            \<and> ordersEndpoint w 0 (base @ ''/orders/v0/orders'') H (accessCheckParams w) = Inr r
            \<and> ordersEndpoint w 1 (base @ ''/orders/v0/orders'') H (pageParams w None)
                = Inr (Some page)
            \<and> Orders page \<noteq> [] \<and> \<not> truthy (NextToken page)"
    then have b: "getBaseUrl (config w) = Inr base" by simp
    have chk: "checkOrdersApiAccess w tok"
      using a by (intro checkOrdersApiAccess_passes [OF b, of tok r]) (simp add: h1)
    have "ordersLoop w tok (getRestrictedDataToken w tok) 1 [] None
            = (Inr ([] @ responseOrders (Some page)), Suc 1)"
      using a by (intro ordersLoop_stop [OF b]) (simp_all add: none h1 h2 orElse_def)
    then show "getRecentOrders w tok = Inr (map formatOrder (Orders page))"
      using getRecentOrders_listing [OF assms(1) chk, of "Orders page"] by simp
  }
qed

lemma header_fields:
  "config headerWorld = sampleConfig"
  "rdtEndpoint headerWorld = (\<lambda>url h. Inl deniedNote)"
  "ordersEndpoint headerWorld
     = (\<lambda>n url h p.
          if Authorization h = ''Bearer Atza|stored'' \<and> xAmzAccessToken h = Some ''Atza|stored''
          then Inr (Some \<lparr>Orders = replicate 3 sampleRawOrder, NextToken = None\<rparr>)
          else Inl (AxiosError (Some 401) None (Some ''Unauthorized'')
                      ''Request failed with status code 401''))"
  by (simp_all add: headerWorld_def sampleWorld_def)

theorem getRestrictedDataToken_best_effort_witness:
  "truthy (Some ''Atza|stored'')
   \<and> requestRestrictedDataToken headerWorld (Some ''Atza|stored'') = Inl deniedNote
   \<and> getBaseUrl (config headerWorld) = Inr ''https://sellingpartnerapi-eu.amazon.com''
   \<and> ordersEndpoint headerWorld 0 ''https://sellingpartnerapi-eu.amazon.com/orders/v0/orders''
         \<lparr>Authorization = ''Bearer Atza|stored'', xAmzAccessToken = Some ''Atza|stored'',
          ContentType = ''application/json''\<rparr> (accessCheckParams headerWorld)
       = Inr (Some \<lparr>Orders = replicate 3 sampleRawOrder, NextToken = None\<rparr>)
   \<and> ordersEndpoint headerWorld 1 ''https://sellingpartnerapi-eu.amazon.com/orders/v0/orders''
         \<lparr>Authorization = ''Bearer Atza|stored'', xAmzAccessToken = None,
          ContentType = ''application/json''\<rparr> (pageParams headerWorld None)
       = Inl (AxiosError (Some 401) None (Some ''Unauthorized'')
                ''Request failed with status code 401'')
   \<and> getRestrictedDataToken headerWorld (Some ''Atza|stored'') = None
   \<and> getRecentOrders headerWorld (Some ''Atza|stored'')
       = Inr (replicate 3 (formatOrder sampleRawOrder))
   \<and> getRecentOrders
         (headerWorld\<lparr>ordersEndpoint :=
            (\<lambda>n url h p. Inr (Some \<lparr>Orders = replicate 3 sampleRawOrder, NextToken = None\<rparr>))\<rparr>)
         (Some ''Atza|stored'')
       = Inr (replicate 3 (formatOrder sampleRawOrder))"
proof -
  let ?tok = "Some ''Atza|stored''"
  let ?H = "\<lparr>Authorization = ''Bearer Atza|stored'', xAmzAccessToken = Some ''Atza|stored'',
             ContentType = ''application/json''\<rparr>"
  let ?page = "\<lparr>Orders = replicate 3 sampleRawOrder, NextToken = None\<rparr>"
  let ?f = "\<lambda>(n::nat) (url::string) (h::spHeaders) (p::ordersParams).
              (Inr (Some ?page) :: jsError + payload option)"
  let ?url = "''https://sellingpartnerapi-eu.amazon.com''"
  have t: "truthy ?tok" by simp
  have b: "getBaseUrl (config headerWorld) = Inr ?url"
    by (simp add: header_fields base_sample)
  have f: "requestRestrictedDataToken headerWorld ?tok = Inl deniedNote"
    by (simp add: requestRestrictedDataToken_def b) (simp add: header_fields)
  have h: "?H = \<lparr>Authorization = ''Bearer '' @ jsText ?tok, xAmzAccessToken = ?tok,
                  ContentType = ''application/json''\<rparr>"
    by simp
  have agree: "\<forall>n url p. ?f n url ?H p = ordersEndpoint headerWorld n url ?H p"
    by (simp add: header_fields)
  have q0: "ordersEndpoint headerWorld 0 (?url @ ''/orders/v0/orders'') ?H
              (accessCheckParams headerWorld) = Inr (Some ?page)"
    and q1: "ordersEndpoint headerWorld 1 (?url @ ''/orders/v0/orders'') ?H
              (pageParams headerWorld None) = Inr (Some ?page)"
    and other: "ordersEndpoint headerWorld 1 (?url @ ''/orders/v0/orders'')
         \<lparr>Authorization = ''Bearer Atza|stored'', xAmzAccessToken = None,
          ContentType = ''application/json''\<rparr> (pageParams headerWorld None)
       = Inl (AxiosError (Some 401) None (Some ''Unauthorized'')
                ''Request failed with status code 401'')"
    by (simp_all add: header_fields)
  have shape: "Orders ?page \<noteq> [] \<and> \<not> truthy (NextToken ?page)"
    by simp
  note r = getRestrictedDataToken_best_effort [OF t f h, of ?f ?url "Some ?page" ?page]
  from r have none: "getRestrictedDataToken headerWorld ?tok = None"
    by blast
  from r b q0 q1 shape
  have res: "getRecentOrders headerWorld ?tok = Inr (map formatOrder (Orders ?page))"
    by blast
  from r agree
  have "getRecentOrders (headerWorld\<lparr>ordersEndpoint := ?f\<rparr>) ?tok
          = getRecentOrders headerWorld ?tok"
    by blast
  with res have res': "getRecentOrders (headerWorld\<lparr>ordersEndpoint := ?f\<rparr>) ?tok
          = Inr (replicate 3 (formatOrder sampleRawOrder))"
    by simp
  from res have res'': "getRecentOrders headerWorld ?tok
          = Inr (replicate 3 (formatOrder sampleRawOrder))"
    by simp
  from t f b q0 other none res' res'' show ?thesis
    by simp
qed

end
